theory Spec2Isabelle
  imports Main
begin

section \<open>Python values used by the traffic platform\<close>

text \<open>
  The exceptions the modelled code can raise. A function that may raise returns a sum
  whose left injection is the exception.
\<close>

datatype py_error =
    KeyError
  | ValueError
  | TypeError
  | AttributeError
  | IndexError
  | UnboundLocalError
  | ZeroDivisionError

text \<open>Decimal rendering of integers, as \<open>str\<close> and \<open>%s\<close> produce it.\<close>

definition digit_char :: "nat \<Rightarrow> char" where
  "digit_char d =
     (if d = 0 then CHR ''0'' else if d = 1 then CHR ''1'' else if d = 2 then CHR ''2''
      else if d = 3 then CHR ''3'' else if d = 4 then CHR ''4'' else if d = 5 then CHR ''5''
      else if d = 6 then CHR ''6'' else if d = 7 then CHR ''7'' else if d = 8 then CHR ''8''
      else CHR ''9'')"

fun str_nat :: "nat \<Rightarrow> string" where
  "str_nat n = (if n < 10 then [digit_char n] else str_nat (n div 10) @ [digit_char (n mod 10)])"

declare str_nat.simps [simp del]

definition str_int :: "int \<Rightarrow> string" where
  "str_int i = (if i < 0 then CHR ''-'' # str_nat (nat (- i)) else str_nat (nat i))"

definition str_bool :: "bool \<Rightarrow> string" where
  "str_bool b = (if b then ''True'' else ''False'')"

text \<open>\<open>s.split(sep)\<close> for a one-character separator: never returns the empty list.\<close>

fun split_on :: "char \<Rightarrow> string \<Rightarrow> string list" where
  "split_on c [] = [[]]"
| "split_on c (x # xs) =
     (if x = c then [] # split_on c xs
      else (case split_on c xs of
              [] \<Rightarrow> [[x]]
            | p # ps \<Rightarrow> (x # p) # ps))"

text \<open>\<open>sep.join(parts)\<close>.\<close>

fun join_with :: "string \<Rightarrow> string list \<Rightarrow> string" where
  "join_with sep [] = []"
| "join_with sep [p] = p"
| "join_with sep (p # q # ps) = p @ sep @ join_with sep (q # ps)"

text \<open>\<open>needle in haystack\<close> on strings.\<close>

fun startswith :: "string \<Rightarrow> string \<Rightarrow> bool" where
  "startswith s [] = True"
| "startswith [] (p # ps) = False"
| "startswith (x # xs) (p # ps) = (x = p \<and> startswith xs ps)"

fun str_contains :: "string \<Rightarrow> string \<Rightarrow> bool" where
  "str_contains [] needle = (needle = [])"
| "str_contains (x # xs) needle = (startswith (x # xs) needle \<or> str_contains xs needle)"

section \<open>traffic_objects.py\<close>

subsection \<open>TrafficServer and TrafficRule\<close>

record TrafficServer =
  s_ident :: string
  s_endpoint :: string
  s_port :: int
  s_protocol :: string
  s_enabled :: bool

text \<open>\<open>TrafficServer.__str__\<close>: the class name, then the fields it prints.\<close>

definition TrafficServer_str :: "TrafficServer \<Rightarrow> string" where
  "TrafficServer_str s =
     ''TrafficServer('' @ ''endpoint='' @ s_endpoint s @ '', port='' @ str_int (s_port s)
       @ '', protocol='' @ s_protocol s @ '', enabled='' @ str_bool (s_enabled s) @ '')''"

definition TrafficServer_eq :: "TrafficServer \<Rightarrow> TrafficServer \<Rightarrow> bool" where
  "TrafficServer_eq a b \<longleftrightarrow>
     s_endpoint a = s_endpoint b \<and> s_port a = s_port b \<and> s_protocol a = s_protocol b"

text \<open>
  \<open>__hash__\<close> is \<open>hash(self.__str__())\<close>. The interpreter's string hash is a parameter
  \<open>h\<close>: it is a function of the characters of the string and of nothing else.
\<close>

definition TrafficServer_hash :: "(string \<Rightarrow> int) \<Rightarrow> TrafficServer \<Rightarrow> int" where
  "TrafficServer_hash h s = h (TrafficServer_str s)"

record TrafficRule =
  r_ident :: string
  r_source :: string
  r_destination :: string
  r_port :: int
  r_protocol :: string
  r_allowed :: bool
  r_enabled :: bool
  r_request_count :: int

definition TrafficRule_str :: "TrafficRule \<Rightarrow> string" where
  "TrafficRule_str r =
     ''TrafficRule('' @ ''source='' @ r_source r @ '', destination='' @ r_destination r
       @ '', port='' @ str_int (r_port r) @ '', protocol='' @ r_protocol r
       @ '', allowed='' @ str_bool (r_allowed r) @ '')''"

definition TrafficRule_eq :: "TrafficRule \<Rightarrow> TrafficRule \<Rightarrow> bool" where
  "TrafficRule_eq a b \<longleftrightarrow>
     r_source a = r_source b \<and> r_destination a = r_destination b \<and> r_port a = r_port b
     \<and> r_protocol a = r_protocol b \<and> r_allowed a = r_allowed b"

definition TrafficRule_hash :: "(string \<Rightarrow> int) \<Rightarrow> TrafficRule \<Rightarrow> int" where
  "TrafficRule_hash h r = h (TrafficRule_str r)"

subsection \<open>Comparison with other objects, dictionaries keyed by rules\<close>

text \<open>
  Both \<open>__eq__\<close> methods start with an \<open>isinstance\<close> test and return False for an
  object of any other class. The objects that meet a rule or a server in a comparison
  are rules, servers and the integer stored in the rule map.
\<close>

datatype py_obj = PyRule TrafficRule | PyServer TrafficServer | PyInt int

definition TrafficServer_eq_obj :: "TrafficServer \<Rightarrow> py_obj \<Rightarrow> bool" where
  "TrafficServer_eq_obj self other =
     (case other of PyServer b \<Rightarrow> TrafficServer_eq self b | _ \<Rightarrow> False)"

definition TrafficRule_eq_obj :: "TrafficRule \<Rightarrow> py_obj \<Rightarrow> bool" where
  "TrafficRule_eq_obj self other =
     (case other of PyRule b \<Rightarrow> TrafficRule_eq self b | _ \<Rightarrow> False)"

text \<open>
  A dictionary finds a key when the hashes agree and \<open>==\<close> holds. \<open>same\<close> is that
  test; the dictionary is an association list in insertion order.
\<close>

definition rule_same :: "(string \<Rightarrow> int) \<Rightarrow> TrafficRule \<Rightarrow> TrafficRule \<Rightarrow> bool" where
  "rule_same h a b \<longleftrightarrow> TrafficRule_hash h a = TrafficRule_hash h b \<and> TrafficRule_eq a b"

definition server_same :: "(string \<Rightarrow> int) \<Rightarrow> TrafficServer \<Rightarrow> TrafficServer \<Rightarrow> bool" where
  "server_same h a b \<longleftrightarrow> TrafficServer_hash h a = TrafficServer_hash h b \<and> TrafficServer_eq a b"

fun dict_get :: "('k \<Rightarrow> 'k \<Rightarrow> bool) \<Rightarrow> ('k \<times> 'v) list \<Rightarrow> 'k \<Rightarrow> 'v option" where
  "dict_get same [] key = None"
| "dict_get same ((k, v) # rest) key = (if same k key then Some v else dict_get same rest key)"

definition dict_contains :: "('k \<Rightarrow> 'k \<Rightarrow> bool) \<Rightarrow> ('k \<times> 'v) list \<Rightarrow> 'k \<Rightarrow> bool" where
  "dict_contains same d key = (dict_get same d key \<noteq> None)"

fun dict_set :: "('k \<Rightarrow> 'k \<Rightarrow> bool) \<Rightarrow> ('k \<times> 'v) list \<Rightarrow> 'k \<Rightarrow> 'v \<Rightarrow> ('k \<times> 'v) list" where
  "dict_set same [] key val = [(key, val)]"
| "dict_set same ((k, v) # rest) key val =
     (if same k key then (k, val) # rest else (k, v) # dict_set same rest key val)"

fun dict_del :: "('k \<Rightarrow> 'k \<Rightarrow> bool) \<Rightarrow> ('k \<times> 'v) list \<Rightarrow> 'k \<Rightarrow> py_error + ('k \<times> 'v) list" where
  "dict_del same [] key = Inl KeyError"
| "dict_del same ((k, v) # rest) key =
     (if same k key then Inr rest
      else (case dict_del same rest key of Inl e \<Rightarrow> Inl e | Inr rest' \<Rightarrow> Inr ((k, v) # rest')))"

subsection \<open>TrafficRuleCollection\<close>

record TrafficRuleCollection =
  rules_map :: "(TrafficRule \<times> int) list"
  rules_deque :: "TrafficRule list"

definition TrafficRuleCollection_init :: TrafficRuleCollection where
  "TrafficRuleCollection_init = \<lparr>rules_map = [], rules_deque = []\<rparr>"

definition add_rule :: "(string \<Rightarrow> int) \<Rightarrow> TrafficRuleCollection \<Rightarrow> TrafficRule \<Rightarrow> TrafficRuleCollection" where
  "add_rule h self rule =
     (if \<not> dict_contains (rule_same h) (rules_map self) rule
      then \<lparr>rules_map = dict_set (rule_same h) (rules_map self) rule 1,
            rules_deque = rules_deque self @ [rule]\<rparr>
      else self)"

fun add_rules :: "(string \<Rightarrow> int) \<Rightarrow> TrafficRuleCollection \<Rightarrow> TrafficRule list \<Rightarrow> TrafficRuleCollection" where
  "add_rules h self [] = self"
| "add_rules h self (rule # rest) = add_rules h (add_rule h self rule) rest"

text \<open>\<open>deque.remove(value)\<close>: drops the first element equal to the value, ValueError if none.\<close>

fun deque_remove :: "TrafficRule list \<Rightarrow> py_obj \<Rightarrow> py_error + TrafficRule list" where
  "deque_remove [] value = Inl ValueError"
| "deque_remove (x # xs) value =
     (if TrafficRule_eq_obj x value then Inr xs
      else (case deque_remove xs value of Inl e \<Rightarrow> Inl e | Inr xs' \<Rightarrow> Inr (x # xs')))"

text \<open>
  \<open>__delete_rule\<close> rebinds \<open>rule\<close> to the value stored in the map, then removes that
  value from the deque. Only KeyError is caught, and it is raised again.
\<close>

definition delete_rule :: "(string \<Rightarrow> int) \<Rightarrow> TrafficRuleCollection \<Rightarrow> TrafficRule \<Rightarrow> py_error + TrafficRuleCollection" where
  "delete_rule h self rule =
     (case dict_get (rule_same h) (rules_map self) rule of
        None \<Rightarrow> Inl KeyError
      | Some stored \<Rightarrow>
          (case deque_remove (rules_deque self) (PyInt stored) of
             Inl e \<Rightarrow> Inl e
           | Inr rules' \<Rightarrow> Inr (self\<lparr>rules_deque := rules'\<rparr>)))"

definition clear_rules :: "TrafficRuleCollection \<Rightarrow> TrafficRuleCollection" where
  "clear_rules self = \<lparr>rules_map = [], rules_deque = []\<rparr>"

definition get_rule_count :: "TrafficRuleCollection \<Rightarrow> nat" where
  "get_rule_count self = length (rules_map self)"

definition contains_rule :: "(string \<Rightarrow> int) \<Rightarrow> TrafficRuleCollection \<Rightarrow> TrafficRule \<Rightarrow> bool" where
  "contains_rule h self item = dict_contains (rule_same h) (rules_map self) item"

text \<open>
  \<open>round_robin_rule_generator\<close>. A generator is suspended at its \<open>yield\<close>; the state
  holds the collection and the local \<open>item\<close>, unbound before the first yield. One call
  of \<open>next\<close> resumes it: the \<open>finally\<close> block of the suspended iteration runs (rotate
  by one if the item is still in the map), then the loop test, then the read of
  \<open>_rules[0]\<close>. An IndexError is caught, the generator returns, and \<open>finally\<close> runs
  once more, where an unbound \<open>item\<close> raises.
\<close>

record generator =
  g_coll :: TrafficRuleCollection
  g_item :: "TrafficRule option"

datatype gen_result = Yield TrafficRule | StopIteration | Raise py_error

definition deque_rotate_left :: "'a list \<Rightarrow> 'a list" where
  "deque_rotate_left xs = (case xs of [] \<Rightarrow> [] | x # rest \<Rightarrow> rest @ [x])"

definition run_finally :: "(string \<Rightarrow> int) \<Rightarrow> TrafficRuleCollection \<Rightarrow> TrafficRule \<Rightarrow> TrafficRuleCollection" where
  "run_finally h coll item =
     (if dict_contains (rule_same h) (rules_map coll) item
      then coll\<lparr>rules_deque := deque_rotate_left (rules_deque coll)\<rparr> else coll)"

definition round_robin_rule_generator :: "TrafficRuleCollection \<Rightarrow> generator" where
  "round_robin_rule_generator coll = \<lparr>g_coll = coll, g_item = None\<rparr>"

definition gen_next :: "(string \<Rightarrow> int) \<Rightarrow> generator \<Rightarrow> gen_result \<times> generator" where
  "gen_next h g =
     (let coll = (case g_item g of None \<Rightarrow> g_coll g | Some item \<Rightarrow> run_finally h (g_coll g) item)
      in if rules_map coll = [] then (StopIteration, g\<lparr>g_coll := coll\<rparr>)
         else (case rules_deque coll of
                 [] \<Rightarrow> (case g_item g of
                          None \<Rightarrow> (Raise UnboundLocalError, g\<lparr>g_coll := coll\<rparr>)
                        | Some item \<Rightarrow> (StopIteration, g\<lparr>g_coll := run_finally h coll item\<rparr>))
               | item # _ \<Rightarrow> (Yield item, \<lparr>g_coll = coll, g_item = Some item\<rparr>)))"

text \<open>The first \<open>n\<close> rules the generator yields, with no other access to the collection.\<close>

fun yields :: "(string \<Rightarrow> int) \<Rightarrow> nat \<Rightarrow> generator \<Rightarrow> TrafficRule list" where
  "yields h 0 g = []"
| "yields h (Suc n) g =
     (case gen_next h g of
        (Yield item, g') \<Rightarrow> item # yields h n g'
      | _ \<Rightarrow> [])"

subsection \<open>TrafficRecord\<close>

record TrafficRecord =
  rec_ident :: string
  rec_source :: string
  rec_destination :: string
  rec_port :: string
  rec_protocol :: string
  rec_success_count :: int
  rec_failure_count :: int
  rec_connected :: bool
  rec_created :: int

text \<open>
  \<open>TrafficRecord.__str__\<close> joins the fields with commas; \<open>str.join\<close> accepts strings
  only, so the port of a record is text.
\<close>

definition TrafficRecord_str :: "TrafficRecord \<Rightarrow> string" where
  "TrafficRecord_str r =
     ''TrafficRecord('' @ join_with '','' [rec_source r, rec_destination r, rec_port r,
        rec_protocol r, str_bool (rec_connected r)] @ '')''"

text \<open>
  \<open>to_metric\<close> formats its arguments with \<open>{}\<close>: the port is the integer the client
  connects to, \<open>connected\<close> a boolean.
\<close>

definition to_metric :: "string \<Rightarrow> string \<Rightarrow> int \<Rightarrow> string \<Rightarrow> bool \<Rightarrow> bool \<Rightarrow> string" where
  "to_metric source destination port protocol connected success =
     (let metric = source @ '':'' @ destination @ '':'' @ str_int port @ '':'' @ protocol
                   @ '':'' @ str_bool connected
      in if success then metric @ '':'' @ ''success'' else metric @ '':'' @ ''failure'')"

text \<open>
  \<open>from_metric\<close> unpacks \<open>metric.split(":")\<close> into exactly six names, which raises
  ValueError for any other number of parts. The constructor draws the id from
  \<open>uuid.uuid4().hex\<close> and the creation time from the clock: both are the argument
  \<open>fresh\<close>.
\<close>

definition from_metric :: "string \<times> int \<Rightarrow> string \<Rightarrow> py_error + TrafficRecord" where
  "from_metric fresh metric =
     (case split_on CHR '':'' metric of
        [source, destination, port, protocol, connected, result] \<Rightarrow>
          Inr \<lparr>rec_ident = fst fresh, rec_source = source, rec_destination = destination,
               rec_port = port, rec_protocol = protocol, rec_success_count = 0,
               rec_failure_count = 0, rec_connected = (connected = ''True''),
               rec_created = snd fresh\<rparr>
      | _ \<Rightarrow> Inl ValueError)"

definition is_success :: "string \<Rightarrow> bool" where
  "is_success metric = str_contains metric ''success''"

section \<open>metric_cache.py\<close>

text \<open>
  A Counter holds one integer. The MetricsCache is a dictionary from metric key to
  Counter; Python dictionaries keep insertion order, so it is an association list with
  distinct keys.
\<close>

type_synonym Counter = int

definition Counter_inc :: "Counter \<Rightarrow> int \<Rightarrow> Counter" where
  "Counter_inc c val = c + val"

definition Counter_count :: "Counter \<Rightarrow> int" where
  "Counter_count c = c"

definition Counter_clear :: "Counter \<Rightarrow> Counter" where
  "Counter_clear c = 0"

definition Counter_dec :: "Counter \<Rightarrow> int \<Rightarrow> Counter" where
  "Counter_dec c val = Counter_inc c (- val)"

type_synonym MetricsCache = "(string \<times> Counter) list"

text \<open>\<open>MetricsCache.counter\<close> creates the counter on first access.\<close>

definition counter :: "MetricsCache \<Rightarrow> string \<Rightarrow> MetricsCache" where
  "counter cache key = (if key \<in> set (map fst cache) then cache else cache @ [(key, 0)])"

text \<open>Applying a Counter method to the counter stored under a key.\<close>

fun on_counter :: "(Counter \<Rightarrow> Counter) \<Rightarrow> string \<Rightarrow> MetricsCache \<Rightarrow> MetricsCache" where
  "on_counter f key [] = []"
| "on_counter f key ((k, c) # rest) =
     (if k = key then (k, f c) # rest else (k, c) # on_counter f key rest)"

definition count_of :: "MetricsCache \<Rightarrow> string \<Rightarrow> int" where
  "count_of cache key = (case map_of cache key of None \<Rightarrow> 0 | Some c \<Rightarrow> Counter_count c)"

subsection \<open>ExchangeReporter.report\<close>

text \<open>
  \<open>report\<close> walks the keys of the cache. For each counter it reads \<open>count()\<close>, skips
  a zero, otherwise puts the value in \<open>count_dict\<close> and calls \<open>dec(count)\<close>. The read
  and the decrement each take the counter's lock, so each is atomic, but probe threads
  may call \<open>inc\<close> on the same counter between the two. \<open>arrivals key\<close> is the sum of
  the increments that land on the counter of \<open>key\<close> in that window; the sequential run
  is the one where it is zero everywhere.
\<close>

type_synonym message = "(string \<times> int) list"

definition report_key :: "(string \<Rightarrow> int) \<Rightarrow> MetricsCache \<times> message \<Rightarrow> string \<Rightarrow> MetricsCache \<times> message" where
  "report_key arrivals st key =
     (let cache = fst st; count_dict = snd st; count = count_of cache key
      in if count = 0 then (cache, count_dict)
         else (let busy = on_counter (\<lambda>c. Counter_inc c (arrivals key)) key cache
               in (on_counter (\<lambda>c. Counter_dec c count) key busy,
                   dict_set (=) count_dict key count)))"

definition report_during :: "(string \<Rightarrow> int) \<Rightarrow> MetricsCache \<Rightarrow> MetricsCache \<times> message option" where
  "report_during arrivals cache =
     (let st = fold (\<lambda>key st. report_key arrivals st key) (map fst cache) (cache, [])
      in (fst st, if snd st \<noteq> [] then Some (snd st) else None))"

definition report :: "MetricsCache \<Rightarrow> MetricsCache \<times> message option" where
  "report cache = report_during (\<lambda>key. 0) cache"

text \<open>The value a sent message carries for a key, if it carries one.\<close>

definition sent_value :: "message option \<Rightarrow> string \<Rightarrow> int option" where
  "sent_value msg key = (case msg of None \<Rightarrow> None | Some count_dict \<Rightarrow> dict_get (=) count_dict key)"

section \<open>subscribers.py\<close>

text \<open>
  \<open>SQLRecorder.handle\<close>. Every metric of every message is parsed into a fresh record;
  the record already stored under the same text, if any, replaces it; the value is
  assigned to its success or failure count; the record is stored under its text. The
  result is the list handed to \<open>add_records_batch\<close>. \<open>fresh n\<close> is the id and clock
  reading of the \<open>n\<close>-th record constructed.
\<close>

definition handle_metric ::
  "(nat \<Rightarrow> string \<times> int) \<Rightarrow> nat \<times> (string \<times> TrafficRecord) list \<Rightarrow> string \<times> int
     \<Rightarrow> py_error + (nat \<times> (string \<times> TrafficRecord) list)" where
  "handle_metric fresh st item =
     (let n = fst st; traffic_records_map = snd st; metric = fst item; val = snd item;
          success = is_success metric
      in case from_metric (fresh n) metric of
           Inl e \<Rightarrow> Inl e
         | Inr parsed \<Rightarrow>
             (let record = (case dict_get (=) traffic_records_map (TrafficRecord_str parsed) of
                              None \<Rightarrow> parsed | Some found \<Rightarrow> found);
                  record' = (if success then record\<lparr>rec_success_count := val\<rparr>
                             else record\<lparr>rec_failure_count := val\<rparr>)
              in Inr (Suc n, dict_set (=) traffic_records_map (TrafficRecord_str record') record')))"

fun handle_items ::
  "(nat \<Rightarrow> string \<times> int) \<Rightarrow> nat \<times> (string \<times> TrafficRecord) list \<Rightarrow> (string \<times> int) list
     \<Rightarrow> py_error + (nat \<times> (string \<times> TrafficRecord) list)" where
  "handle_items fresh st [] = Inr st"
| "handle_items fresh st (item # rest) =
     (case handle_metric fresh st item of
        Inl e \<Rightarrow> Inl e
      | Inr st' \<Rightarrow> handle_items fresh st' rest)"

definition handle :: "(nat \<Rightarrow> string \<times> int) \<Rightarrow> message list \<Rightarrow> py_error + TrafficRecord list" where
  "handle fresh messages =
     (case handle_items fresh (0, []) (concat messages) of
        Inl e \<Rightarrow> Inl e
      | Inr st \<Rightarrow> Inr (map snd (snd st)))"

section \<open>servers/worker.py\<close>

text \<open>
  The worker keeps the list \<open>_servers\<close> and the dictionary \<open>_running_servers\<close> from
  server to listener. A listener is a handle; \<open>w_closed\<close> lists the handles that were
  closed. Binding a listener is taken to succeed; \<open>ServerFactory.create_server\<close>
  returns None for a protocol it does not know, and scheduling None raises TypeError.
\<close>

record TrafficServerWorker =
  w_servers :: "TrafficServer list"
  w_running_servers :: "(TrafficServer \<times> nat) list"
  w_next_instance :: nat
  w_closed :: "nat list"

definition TrafficServerWorker_init :: TrafficServerWorker where
  "TrafficServerWorker_init =
     \<lparr>w_servers = [], w_running_servers = [], w_next_instance = 0, w_closed = []\<rparr>"

text \<open>\<open>x in list\<close> and \<open>list.remove(x)\<close> compare with \<open>==\<close>.\<close>

definition has_server :: "TrafficServerWorker \<Rightarrow> TrafficServer \<Rightarrow> bool" where
  "has_server self server = list_ex (\<lambda>e. TrafficServer_eq e server) (w_servers self)"

definition get_server_count :: "TrafficServerWorker \<Rightarrow> nat" where
  "get_server_count self = length (w_servers self)"

fun list_remove :: "TrafficServer list \<Rightarrow> TrafficServer \<Rightarrow> py_error + TrafficServer list" where
  "list_remove [] value = Inl ValueError"
| "list_remove (x # xs) value =
     (if TrafficServer_eq x value then Inr xs
      else (case list_remove xs value of Inl e \<Rightarrow> Inl e | Inr xs' \<Rightarrow> Inr (x # xs')))"

definition known_protocol :: "string \<Rightarrow> bool" where
  "known_protocol p \<longleftrightarrow> p = ''TCP'' \<or> p = ''UDP'' \<or> p = ''HTTP'' \<or> p = ''HTTPS''"

definition add_server :: "(string \<Rightarrow> int) \<Rightarrow> TrafficServerWorker \<Rightarrow> TrafficServer \<Rightarrow> py_error + TrafficServerWorker" where
  "add_server h self server =
     (if \<not> has_server self server then
        (let appended = self\<lparr>w_servers := w_servers self @ [server]\<rparr>
         in if known_protocol (s_protocol server)
            then Inr (appended\<lparr>w_running_servers :=
                          dict_set (server_same h) (w_running_servers self) server (w_next_instance self),
                        w_next_instance := Suc (w_next_instance self)\<rparr>)
            else Inl TypeError)
      else Inr self)"

fun add_servers :: "(string \<Rightarrow> int) \<Rightarrow> TrafficServerWorker \<Rightarrow> TrafficServer list \<Rightarrow> py_error + TrafficServerWorker" where
  "add_servers h self [] = Inr self"
| "add_servers h self (server # rest) =
     (case add_server h self server of
        Inl e \<Rightarrow> Inl e
      | Inr self' \<Rightarrow> add_servers h self' rest)"

definition stop_server :: "(string \<Rightarrow> int) \<Rightarrow> TrafficServerWorker \<Rightarrow> TrafficServer \<Rightarrow> py_error + TrafficServerWorker" where
  "stop_server h self server =
     (case dict_get (server_same h) (w_running_servers self) server of
        None \<Rightarrow> Inl KeyError
      | Some server_instance \<Rightarrow>
          (case dict_del (server_same h) (w_running_servers self) server of
             Inl e \<Rightarrow> Inl e
           | Inr running \<Rightarrow>
               Inr (self\<lparr>w_closed := w_closed self @ [server_instance],
                         w_running_servers := running\<rparr>)))"

text \<open>
  \<open>delete_all_servers\<close> iterates over \<open>self._servers\<close> while removing from it. A list
  iterator keeps an index: each round reads the element at the index if the index is
  still inside the list, and then advances by one.
\<close>

function delete_all_loop :: "(string \<Rightarrow> int) \<Rightarrow> nat \<Rightarrow> TrafficServerWorker \<Rightarrow> py_error + TrafficServerWorker" where
  "delete_all_loop h i self =
     (if i < length (w_servers self) then
        (case stop_server h self (w_servers self ! i) of
           Inl e \<Rightarrow> Inl e
         | Inr stopped \<Rightarrow>
             (case list_remove (w_servers stopped) (w_servers self ! i) of
                Inl e \<Rightarrow> Inl e
              | Inr remaining \<Rightarrow> delete_all_loop h (Suc i) (stopped\<lparr>w_servers := remaining\<rparr>)))
      else Inr self)"
  by pat_completeness auto
termination
proof -
  have shorter: "length ys < length xs" if "list_remove xs v = Inr ys" for xs v ys
    using that by (induction xs arbitrary: ys) (auto split: if_splits sum.splits)
  have kept: "w_servers stopped = w_servers self"
    if "stop_server h self s = Inr stopped" for h self s stopped
    using that by (auto simp: stop_server_def split: option.splits sum.splits)
  show ?thesis
  proof (relation "measure (\<lambda>(h, i, self). length (w_servers self) - i)")
    show "wf (measure (\<lambda>(h, i, self). length (w_servers self) - i))"
      by simp
  next
    fix h :: "string \<Rightarrow> int" and i self stopped remaining
    assume i: "i < length (w_servers self)"
      and s: "stop_server h self (w_servers self ! i) = Inr stopped"
      and r: "list_remove (w_servers stopped) (w_servers self ! i) = Inr remaining"
    from shorter [OF r] kept [OF s] have "length remaining < length (w_servers self)"
      by simp
    with i show "((h, Suc i, stopped\<lparr>w_servers := remaining\<rparr>), (h, i, self))
                   \<in> measure (\<lambda>(h, i, self). length (w_servers self) - i)"
      by simp
  qed
qed

declare delete_all_loop.simps [simp del]

definition delete_all_servers :: "(string \<Rightarrow> int) \<Rightarrow> TrafficServerWorker \<Rightarrow> py_error + TrafficServerWorker" where
  "delete_all_servers h self = delete_all_loop h 0 self"

section \<open>clients.py\<close>

text \<open>
  The fields of a TCPClient that \<open>record\<close> reads. \<open>action\<close> is documented as an
  integer, 0 for reject and 1 for allow; \<open>bool(action)\<close> is \<open>action \<noteq> 0\<close>.
\<close>

record TCPClient =
  c_source :: string
  c_destination :: string
  c_port :: int
  c_connected :: bool
  c_action :: int
  c_request_count :: int
  c_PROTOCOL :: string

definition is_traffic_successful :: "TCPClient \<Rightarrow> bool \<Rightarrow> bool" where
  "is_traffic_successful self success =
     (if \<not> c_connected self then (c_connected self = success)
      else ((c_action self \<noteq> 0) = success))"

text \<open>\<open>record\<close>: classify, build the metric key, increment its counter.\<close>

definition record_metric :: "TCPClient \<Rightarrow> bool \<Rightarrow> string" where
  "record_metric self success =
     to_metric (c_source self) (c_destination self) (c_port self) (c_PROTOCOL self)
       (c_connected self) (is_traffic_successful self success)"

definition record_probe :: "TCPClient \<Rightarrow> bool \<Rightarrow> MetricsCache \<Rightarrow> MetricsCache" where
  "record_probe self success cache =
     (let metric = record_metric self success
      in on_counter (\<lambda>c. Counter_inc c 1) metric (counter cache metric))"

section \<open>local_cache.py and controller.py\<close>

text \<open>
  A worker context is the dictionary \<open>{'uid', 'address', 'process'}\<close>; address and
  process are filled in once the worker process runs. MemCache is a dictionary with
  string keys. \<open>get\<close> may be called with any object: an integer is never equal to a
  string, so it finds nothing and returns the default None.
\<close>

record worker_context =
  ctx_uid :: string
  ctx_address :: "string option"
  ctx_process :: "string option"

type_synonym MemCache = "(string \<times> worker_context) list"

datatype py_key = KeyStr string | KeyInt int

definition MemCache_add :: "MemCache \<Rightarrow> string \<Rightarrow> worker_context \<Rightarrow> MemCache" where
  "MemCache_add cache key val = dict_set (=) cache key val"

definition MemCache_get :: "MemCache \<Rightarrow> py_key \<Rightarrow> worker_context option" where
  "MemCache_get cache key =
     (case key of KeyStr k \<Rightarrow> dict_get (=) cache k | KeyInt _ \<Rightarrow> None)"

definition MemCache_delete :: "MemCache \<Rightarrow> string \<Rightarrow> MemCache" where
  "MemCache_delete cache key =
     (case dict_del (=) cache key of Inl _ \<Rightarrow> cache | Inr cache' \<Rightarrow> cache')"

fun delete_many :: "MemCache \<Rightarrow> string list \<Rightarrow> MemCache" where
  "delete_many cache [] = cache"
| "delete_many cache (key # keys) = delete_many (MemCache_delete cache key) keys"

definition get_all_keys :: "MemCache \<Rightarrow> string list" where
  "get_all_keys cache = map fst cache"

text \<open>
  The arithmetic of \<open>_add_rules_to_existing_workers\<close> is applied to whatever the loop
  variables hold. \<open>int * str\<close> repeats the string, \<open>str + int\<close> raises TypeError, and a
  slice bound that is not an integer raises TypeError.
\<close>

definition py_mul :: "py_key \<Rightarrow> py_key \<Rightarrow> py_error + py_key" where
  "py_mul a b =
     (case (a, b) of
        (KeyInt m, KeyInt n) \<Rightarrow> Inr (KeyInt (m * n))
      | (KeyInt m, KeyStr s) \<Rightarrow> Inr (KeyStr (concat (replicate (nat m) s)))
      | (KeyStr s, KeyInt m) \<Rightarrow> Inr (KeyStr (concat (replicate (nat m) s)))
      | (KeyStr _, KeyStr _) \<Rightarrow> Inl TypeError)"

definition py_add :: "py_key \<Rightarrow> py_key \<Rightarrow> py_error + py_key" where
  "py_add a b =
     (case (a, b) of
        (KeyInt m, KeyInt n) \<Rightarrow> Inr (KeyInt (m + n))
      | (KeyStr s, KeyStr t) \<Rightarrow> Inr (KeyStr (s @ t))
      | _ \<Rightarrow> Inl TypeError)"

definition slice_bound :: "nat \<Rightarrow> int \<Rightarrow> nat" where
  "slice_bound len i = (if i < 0 then nat (max 0 (int len + i)) else min len (nat i))"

definition slice :: "'a list \<Rightarrow> int \<Rightarrow> int \<Rightarrow> 'a list" where
  "slice xs start stop =
     (let s = slice_bound (length xs) start; e = slice_bound (length xs) stop
      in take (e - s) (drop s xs))"

definition py_slice :: "'a list \<Rightarrow> py_key \<Rightarrow> py_key \<Rightarrow> py_error + 'a list" where
  "py_slice xs start stop =
     (case (start, stop) of
        (KeyInt s, KeyInt e) \<Rightarrow> Inr (slice xs s e)
      | _ \<Rightarrow> Inl TypeError)"

text \<open>
  The controller. Its rules are servers or client rules; it reads nothing of a rule but
  its id, so the rule type is a parameter and \<open>rid\<close> reads the id. The RPCs to the
  workers are recorded in \<open>rpc_log\<close> in the order they are sent and are taken to
  succeed, as is the start of a worker process. The environment gives the UUIDs in the
  order drawn and the address the kernel assigns to a worker's listener.
\<close>

datatype 'r rpc_call =
    Add string "string option" "'r list"
  | Delete string "string option" "'r list"

record 'r TrafficController =
  rules_registry :: MemCache
  workers_registry :: MemCache
  rpc_log :: "'r rpc_call list"
  uuids_drawn :: nat

record environment =
  uuid4_hex :: "nat \<Rightarrow> string"
  listener_address :: "string \<Rightarrow> string"

definition TrafficController_init :: "'r TrafficController" where
  "TrafficController_init =
     \<lparr>rules_registry = [], workers_registry = [], rpc_log = [], uuids_drawn = 0\<rparr>"

definition get_all_workers :: "'r TrafficController \<Rightarrow> string \<Rightarrow> string list" where
  "get_all_workers self worker_type =
     filter (\<lambda>worker. startswith worker worker_type) (get_all_keys (workers_registry self))"

definition get_all_rules :: "'r TrafficController \<Rightarrow> string \<Rightarrow> string list" where
  "get_all_rules self rule_type =
     filter (\<lambda>rule. startswith rule rule_type) (get_all_keys (rules_registry self))"

definition rule_key :: "string \<Rightarrow> string \<Rightarrow> string" where
  "rule_key worker_type ident = (if worker_type = ''server'' then ''server_'' @ ident else ''client_'' @ ident)"

fun register_rules :: "('r \<Rightarrow> string) \<Rightarrow> string \<Rightarrow> worker_context \<Rightarrow> MemCache \<Rightarrow> 'r list \<Rightarrow> MemCache" where
  "register_rules rid worker_type ctx registry [] = registry"
| "register_rules rid worker_type ctx registry (rule # rest) =
     register_rules rid worker_type ctx
       (MemCache_add registry (rule_key worker_type (rid rule)) ctx) rest"

text \<open>
  \<open>_add_rules_to_existing_workers\<close>. The loop header is
  \<open>for worker, index in enumerate(...)\<close>, and \<open>enumerate\<close> yields (position, element):
  \<open>worker\<close> holds the position and \<open>index\<close> the worker key. The body of one round:
\<close>

definition add_to_existing_worker ::
  "('r \<Rightarrow> string) \<Rightarrow> 'r list \<Rightarrow> int \<Rightarrow> string \<Rightarrow> 'r TrafficController \<Rightarrow> py_key \<Rightarrow> py_key
     \<Rightarrow> py_error + 'r TrafficController" where
  "add_to_existing_worker rid new_rules rules_per_worker worker_type self worker index =
     (let ctx = MemCache_get (workers_registry self) worker
      in case py_mul (KeyInt rules_per_worker) index of
           Inl e \<Rightarrow> Inl e
         | Inr start \<Rightarrow>
             (case py_add start (KeyInt rules_per_worker) of
                Inl e \<Rightarrow> Inl e
              | Inr stop \<Rightarrow>
                  (case py_slice new_rules start stop of
                     Inl e \<Rightarrow> Inl e
                   | Inr rules \<Rightarrow>
                       (if rules \<noteq> [] then
                          (case ctx of
                             None \<Rightarrow> Inl AttributeError
                           | Some c \<Rightarrow>
                               Inr (self\<lparr>rpc_log := rpc_log self @ [Add worker_type (ctx_address c) rules],
                                         rules_registry :=
                                           register_rules rid worker_type c (rules_registry self) rules\<rparr>))
                        else Inr self))))"

text \<open>A raised exception leaves the controller as the completed rounds left it.\<close>

fun add_rules_loop ::
  "('r \<Rightarrow> string) \<Rightarrow> 'r list \<Rightarrow> int \<Rightarrow> string \<Rightarrow> 'r TrafficController \<Rightarrow> (nat \<times> string) list
     \<Rightarrow> py_error option \<times> 'r TrafficController" where
  "add_rules_loop rid new_rules rules_per_worker worker_type self [] = (None, self)"
| "add_rules_loop rid new_rules rules_per_worker worker_type self ((position, element) # rest) =
     (case add_to_existing_worker rid new_rules rules_per_worker worker_type self
             (KeyInt (int position)) (KeyStr element) of
        Inl e \<Rightarrow> (Some e, self)
      | Inr self' \<Rightarrow> add_rules_loop rid new_rules rules_per_worker worker_type self' rest)"

definition add_rules_to_existing_workers ::
  "('r \<Rightarrow> string) \<Rightarrow> 'r TrafficController \<Rightarrow> 'r list \<Rightarrow> int \<Rightarrow> string
     \<Rightarrow> py_error option \<times> 'r TrafficController" where
  "add_rules_to_existing_workers rid self new_rules rules_per_worker worker_type =
     add_rules_loop rid new_rules rules_per_worker worker_type self
       (enumerate 0 (get_all_workers self worker_type))"

text \<open>
  \<open>_create_workers_and_add_rules\<close>: round \<open>i\<close> draws a UUID, takes the \<open>i\<close>-th slice
  and stops the loop when it is empty; otherwise it starts the worker, records it,
  sends the slice and registers its rules.
\<close>

definition worker_key :: "string \<Rightarrow> string \<Rightarrow> string" where
  "worker_key worker_type uid = (if worker_type = ''server'' then ''server_'' @ uid else ''client_'' @ uid)"

definition worker_name :: "string \<Rightarrow> string \<Rightarrow> string" where
  "worker_name worker_type uid = ''axon_'' @ worker_type @ ''_worker_'' @ uid"

fun create_workers_loop ::
  "environment \<Rightarrow> ('r \<Rightarrow> string) \<Rightarrow> 'r list \<Rightarrow> int \<Rightarrow> string \<Rightarrow> 'r TrafficController \<Rightarrow> nat list
     \<Rightarrow> 'r TrafficController" where
  "create_workers_loop env rid new_rules rules_per_worker worker_type self [] = self"
| "create_workers_loop env rid new_rules rules_per_worker worker_type self (i # rest) =
     (let uid = uuid4_hex env (uuids_drawn self);
          drawn = self\<lparr>uuids_drawn := Suc (uuids_drawn self)\<rparr>;
          start = rules_per_worker * int i;
          stop = start + rules_per_worker;
          rules = slice new_rules start stop
      in if rules = [] then drawn
         else (let name = worker_name worker_type uid;
                   ctx = \<lparr>ctx_uid = uid, ctx_address = Some (listener_address env name),
                          ctx_process = Some name\<rparr>;
                   started = drawn\<lparr>
                     workers_registry := MemCache_add (workers_registry drawn) (worker_key worker_type uid) ctx,
                     rpc_log := rpc_log drawn @ [Add worker_type (ctx_address ctx) rules],
                     rules_registry := register_rules rid worker_type ctx (rules_registry drawn) rules\<rparr>
               in create_workers_loop env rid new_rules rules_per_worker worker_type started rest))"

definition create_workers_and_add_rules ::
  "environment \<Rightarrow> ('r \<Rightarrow> string) \<Rightarrow> 'r TrafficController \<Rightarrow> 'r list \<Rightarrow> int \<Rightarrow> int \<Rightarrow> string
     \<Rightarrow> 'r TrafficController" where
  "create_workers_and_add_rules env rid self new_rules workers_to_be_created rules_per_worker worker_type =
     create_workers_loop env rid new_rules rules_per_worker worker_type self
       [0 ..< nat workers_to_be_created]"

text \<open>
  \<open>start_servers\<close> and \<open>start_clients\<close>. \<open>worker_count\<close> is the module constant
  \<open>min(2, cpu_count() or 1)\<close>; the rules per worker are
  \<open>int(math.ceil(float(len(new_rules)) / workers))\<close>.
\<close>

definition ceil_div :: "nat \<Rightarrow> nat \<Rightarrow> int" where
  "ceil_div n workers = int ((n + workers - 1) div workers)"

definition start_rules ::
  "environment \<Rightarrow> ('r \<Rightarrow> string) \<Rightarrow> nat \<Rightarrow> string \<Rightarrow> 'r TrafficController \<Rightarrow> 'r list
     \<Rightarrow> py_error option \<times> 'r TrafficController" where
  "start_rules env rid worker_count worker_type self rules =
     (let existing_rules = get_all_rules self worker_type;
          new_rules = filter (\<lambda>rule. worker_type @ ''_'' @ rid rule \<notin> set existing_rules) rules;
          current_workers = length (get_all_workers self worker_type)
      in if worker_count = 0 then (Some ZeroDivisionError, self)
         else (let rules_per_worker = ceil_div (length new_rules) worker_count
               in if current_workers \<noteq> 0 \<and> current_workers = worker_count
                  then add_rules_to_existing_workers rid self new_rules rules_per_worker worker_type
                  else (None, create_workers_and_add_rules env rid self new_rules
                                (int worker_count - int current_workers) rules_per_worker worker_type)))"

definition start_servers ::
  "environment \<Rightarrow> nat \<Rightarrow> TrafficServer TrafficController \<Rightarrow> TrafficServer list
     \<Rightarrow> py_error option \<times> TrafficServer TrafficController" where
  "start_servers env SERVER_WORKER_COUNT self server_rules =
     start_rules env s_ident SERVER_WORKER_COUNT ''server'' self server_rules"

definition start_clients ::
  "environment \<Rightarrow> nat \<Rightarrow> TrafficRule TrafficController \<Rightarrow> TrafficRule list
     \<Rightarrow> py_error option \<times> TrafficRule TrafficController" where
  "start_clients env CLIENT_WORKER_COUNT self rules =
     start_rules env r_ident CLIENT_WORKER_COUNT ''client'' self rules"

text \<open>
  \<open>_delete_rule_from_worker\<close>. The first loop groups the rules that have an owner by
  the owner's uid. The second loop looks each uid up in the workers registry, reads the
  address of what it found, sends the delete and drops the rule keys.
\<close>

fun group_append :: "(string \<times> 'r list) list \<Rightarrow> string \<Rightarrow> 'r \<Rightarrow> (string \<times> 'r list) list" where
  "group_append [] uid rule = [(uid, [rule])]"
| "group_append ((k, rs) # rest) uid rule =
     (if k = uid then (k, rs @ [rule]) # rest else (k, rs) # group_append rest uid rule)"

fun workers_rule_map ::
  "('r \<Rightarrow> string) \<Rightarrow> string \<Rightarrow> MemCache \<Rightarrow> (string \<times> 'r list) list \<Rightarrow> 'r list
     \<Rightarrow> (string \<times> 'r list) list" where
  "workers_rule_map rid worker_type registry acc [] = acc"
| "workers_rule_map rid worker_type registry acc (rule # rest) =
     (case MemCache_get registry (KeyStr (worker_type @ ''_'' @ rid rule)) of
        None \<Rightarrow> workers_rule_map rid worker_type registry acc rest
      | Some rule_owner_context \<Rightarrow>
          workers_rule_map rid worker_type registry
            (group_append acc (ctx_uid rule_owner_context) rule) rest)"

fun delete_loop ::
  "('r \<Rightarrow> string) \<Rightarrow> string \<Rightarrow> 'r TrafficController \<Rightarrow> (string \<times> 'r list) list
     \<Rightarrow> py_error option \<times> 'r TrafficController" where
  "delete_loop rid worker_type self [] = (None, self)"
| "delete_loop rid worker_type self ((worker, rules) # rest) =
     (case MemCache_get (workers_registry self) (KeyStr worker) of
        None \<Rightarrow> (Some AttributeError, self)
      | Some ctx \<Rightarrow>
          delete_loop rid worker_type
            (self\<lparr>rpc_log := rpc_log self @ [Delete worker_type (ctx_address ctx) rules],
                  rules_registry :=
                    delete_many (rules_registry self)
                      (map (\<lambda>rule. worker_type @ ''_'' @ rid rule) rules)\<rparr>)
            rest)"

definition delete_rule_from_worker ::
  "('r \<Rightarrow> string) \<Rightarrow> 'r TrafficController \<Rightarrow> 'r list \<Rightarrow> string
     \<Rightarrow> py_error option \<times> 'r TrafficController" where
  "delete_rule_from_worker rid self rules worker_type =
     delete_loop rid worker_type self
       (workers_rule_map rid worker_type (rules_registry self) [] rules)"

definition stop_servers ::
  "TrafficServer TrafficController \<Rightarrow> TrafficServer list
     \<Rightarrow> py_error option \<times> TrafficServer TrafficController" where
  "stop_servers self rules = delete_rule_from_worker s_ident self rules ''server''"

definition stop_clients ::
  "TrafficRule TrafficController \<Rightarrow> TrafficRule list
     \<Rightarrow> py_error option \<times> TrafficRule TrafficController" where
  "stop_clients self rules = delete_rule_from_worker r_ident self rules ''client''"

section \<open>Invariant of the rule collection\<close>

text \<open>
  What \<open>add_rule\<close> and \<open>clear_rules\<close> maintain: the map and the deque hold the same
  number of rules, every rule of the deque is a key of the map, and no two rules of the
  deque are equal under \<open>__eq__\<close>.
\<close>

fun distinct_eq :: "TrafficRule list \<Rightarrow> bool" where
  "distinct_eq [] = True"
| "distinct_eq (x # xs) = (\<not> list_ex (TrafficRule_eq x) xs \<and> distinct_eq xs)"

definition coll_ok :: "(string \<Rightarrow> int) \<Rightarrow> TrafficRuleCollection \<Rightarrow> bool" where
  "coll_ok h c \<longleftrightarrow>
     length (rules_map c) = length (rules_deque c)
     \<and> list_all (dict_contains (rule_same h) (rules_map c)) (rules_deque c)
     \<and> distinct_eq (rules_deque c)"

text \<open>Reference round robin on a list: take the head, move it to the back.\<close>

fun rr :: "nat \<Rightarrow> 'a list \<Rightarrow> 'a list" where
  "rr 0 xs = []"
| "rr (Suc n) [] = []"
| "rr (Suc n) (x # xs) = x # rr n (xs @ [x])"

section \<open>Example data\<close>

text \<open>Three client rules.\<close>

definition rule_a :: TrafficRule where
  "rule_a = \<lparr>r_ident = ''a'', r_source = ''10.0.0.1'', r_destination = ''10.0.0.2'', r_port = 80,
     r_protocol = ''TCP'', r_allowed = True, r_enabled = True, r_request_count = 1\<rparr>"

definition rule_b :: TrafficRule where
  "rule_b = \<lparr>r_ident = ''b'', r_source = ''10.0.0.1'', r_destination = ''10.0.0.3'', r_port = 53,
     r_protocol = ''UDP'', r_allowed = False, r_enabled = True, r_request_count = 1\<rparr>"

definition rule_c :: TrafficRule where
  "rule_c = \<lparr>r_ident = ''c'', r_source = ''10.0.0.1'', r_destination = ''10.0.0.4'', r_port = 8080,
     r_protocol = ''HTTP'', r_allowed = True, r_enabled = True, r_request_count = 3\<rparr>"

text \<open>An environment: the \<open>n\<close>-th UUID is \<open>n\<close> printed after \<open>u\<close>.\<close>

definition example_env :: environment where
  "example_env = \<lparr>uuid4_hex = (\<lambda>n. ''u'' @ str_nat n), listener_address = (\<lambda>name. ''/tmp/'' @ name)\<rparr>"

text \<open>Two servers and a metric key.\<close>

definition server_a :: TrafficServer where
  "server_a = \<lparr>s_ident = ''a'', s_endpoint = ''10.0.0.1'', s_port = 80, s_protocol = ''TCP'', s_enabled = True\<rparr>"

definition server_b :: TrafficServer where
  "server_b = \<lparr>s_ident = ''b'', s_endpoint = ''10.0.0.1'', s_port = 8080, s_protocol = ''HTTP'', s_enabled = True\<rparr>"

definition metric_ab :: string where
  "metric_ab = to_metric ''10.0.0.1'' ''10.0.0.2'' 80 ''TCP'' True True"

text \<open>The controller after starting one rule, and after starting two.\<close>

definition one_worker :: "TrafficRule TrafficController" where
  "one_worker = snd (start_clients example_env 2 TrafficController_init [rule_a])"

definition two_workers :: "TrafficRule TrafficController" where
  "two_workers = snd (start_clients example_env 2 TrafficController_init [rule_a, rule_b])"

definition context_u0 :: worker_context where
  "context_u0 = \<lparr>ctx_uid = ''u0'', ctx_address = Some ''/tmp/axon_client_worker_u0'',
     ctx_process = Some ''axon_client_worker_u0''\<rparr>"

definition context_u1 :: worker_context where
  "context_u1 = \<lparr>ctx_uid = ''u1'', ctx_address = Some ''/tmp/axon_client_worker_u1'',
     ctx_process = Some ''axon_client_worker_u1''\<rparr>"

section \<open>Properties\<close>

subsection \<open>Outcome classification\<close>

lemma on_counter_keys: "map fst (on_counter f key cache) = map fst cache"
  by (induction cache) auto

lemma count_of_on_counter_same:
  "key \<in> set (map fst cache) \<Longrightarrow>
   count_of (on_counter f key cache) key = Counter_count (f (count_of cache key))"
proof (induction cache)
  case Nil
  then show ?case by simp
next
  case (Cons p cache)
  obtain k c where p: "p = (k, c)" by (cases p)
  show ?case
  proof (cases "k = key")
    case True
    then show ?thesis by (simp add: p count_of_def Counter_count_def)
  next
    case False
    with Cons.prems have "key \<in> set (map fst cache)" by (simp add: p)
    then have "count_of (on_counter f key cache) key = Counter_count (f (count_of cache key))"
      by (rule Cons.IH)
    with False show ?thesis by (simp add: p count_of_def)
  qed
qed

lemma count_of_on_counter_other:
  "k \<noteq> key \<Longrightarrow> count_of (on_counter f key cache) k = count_of cache k"
  by (induction cache) (auto simp: count_of_def)

lemma count_of_counter: "count_of (counter cache key) k = count_of cache k"
proof (cases "key \<in> set (map fst cache)")
  case True
  then show ?thesis by (simp add: counter_def)
next
  case False
  then have none: "map_of cache key = None"
    by (simp add: map_of_eq_None_iff)
  have "map_of (cache @ [(key, 0)]) k = (map_of [(key, 0::int)] ++ map_of cache) k"
    by simp
  with False none show ?thesis
    by (cases "k = key")
       (auto simp: counter_def count_of_def Counter_count_def map_add_def split: option.splits)
qed

lemma counter_has_key: "key \<in> set (map fst (counter cache key))"
  by (simp add: counter_def)

lemma count_of_inc_counter:
  "count_of (on_counter (\<lambda>c. Counter_inc c v) key (counter cache key)) key
     = count_of cache key + v"
proof -
  have "count_of (on_counter (\<lambda>c. Counter_inc c v) key (counter cache key)) key
          = Counter_count (Counter_inc (count_of (counter cache key) key) v)"
    by (rule count_of_on_counter_same) (rule counter_has_key)
  then show ?thesis
    by (simp add: count_of_counter Counter_count_def Counter_inc_def)
qed

text \<open>
  C1. The recorded outcome flag of a probe with raw transport result \<open>S\<close>: with
  \<open>connected\<close> false it is success iff \<open>S\<close> is a failure; with \<open>connected\<close> true it is
  success iff \<open>S\<close> equals the truth value of the rule's action flag, so action 1 keeps
  \<open>S\<close> and action 0 inverts it. \<open>record\<close> increments by one the counter whose key
  carries that flag.
\<close>

theorem outcome_classification:
  "is_traffic_successful (self\<lparr>c_connected := False\<rparr>) S = (\<not> S)
   \<and> is_traffic_successful (self\<lparr>c_connected := True\<rparr>) S = (S = (c_action self \<noteq> 0))
   \<and> is_traffic_successful (self\<lparr>c_connected := True, c_action := 1\<rparr>) S = S
   \<and> is_traffic_successful (self\<lparr>c_connected := True, c_action := 0\<rparr>) S = (\<not> S)
   \<and> record_metric self S =
       to_metric (c_source self) (c_destination self) (c_port self) (c_PROTOCOL self)
         (c_connected self) (is_traffic_successful self S)
   \<and> count_of (record_probe self S cache) (record_metric self S)
       = count_of cache (record_metric self S) + 1"
proof -
  have "count_of (record_probe self S cache) (record_metric self S)
          = count_of cache (record_metric self S) + 1"
    unfolding record_probe_def Let_def by (rule count_of_inc_counter)
  then show ?thesis
    by (auto simp: is_traffic_successful_def record_metric_def)
qed

subsection \<open>Rule identity\<close>

lemma TrafficRule_eq_refl: "TrafficRule_eq a a"
  by (simp add: TrafficRule_eq_def)

lemma TrafficRule_eq_sym: "TrafficRule_eq a b \<Longrightarrow> TrafficRule_eq b a"
  by (simp add: TrafficRule_eq_def)

lemma TrafficRule_eq_str: "TrafficRule_eq a b \<Longrightarrow> TrafficRule_str a = TrafficRule_str b"
  by (simp add: TrafficRule_eq_def TrafficRule_str_def)

lemma TrafficRule_eq_hash: "TrafficRule_eq a b \<Longrightarrow> TrafficRule_hash h a = TrafficRule_hash h b"
  by (simp add: TrafficRule_hash_def TrafficRule_eq_str)

lemma rule_same_iff: "rule_same h a b \<longleftrightarrow> TrafficRule_eq a b"
  by (auto simp: rule_same_def TrafficRule_eq_hash)

lemma TrafficServer_eq_iff:
  "TrafficServer_eq a b \<longleftrightarrow>
     (s_endpoint a, s_port a, s_protocol a) = (s_endpoint b, s_port b, s_protocol b)"
  by (auto simp: TrafficServer_eq_def)

lemma TrafficRule_eq_iff:
  "TrafficRule_eq a b \<longleftrightarrow>
     (r_source a, r_destination a, r_port a, r_protocol a, r_allowed a)
       = (r_source b, r_destination b, r_port b, r_protocol b, r_allowed b)"
  by (auto simp: TrafficRule_eq_def)

lemma TrafficRule_ident_irrelevant:
  "TrafficRule_eq (a\<lparr>r_ident := i, r_enabled := e, r_request_count := n\<rparr>) b = TrafficRule_eq a b"
  "TrafficRule_hash h (a\<lparr>r_ident := i, r_enabled := e, r_request_count := n\<rparr>) = TrafficRule_hash h a"
  by (simp_all add: TrafficRule_eq_def TrafficRule_hash_def TrafficRule_str_def)

lemma TrafficServer_ident_irrelevant:
  "TrafficServer_eq (a\<lparr>s_ident := i, s_enabled := e\<rparr>) b = TrafficServer_eq a b"
  "TrafficServer_hash h (a\<lparr>s_ident := i\<rparr>) = TrafficServer_hash h a"
  by (simp_all add: TrafficServer_eq_def TrafficServer_hash_def TrafficServer_str_def)

text \<open>
  C7. Equality of servers is equality of (endpoint, port, protocol), and of rules
  equality of (source, destination, port, protocol, allowed); equal rules have equal
  hashes. For servers the hashed text contains the enabled flag: two servers that
  differ in nothing but \<open>enabled\<close> are equal, and their hashes are the hashes of two
  different strings.
\<close>

theorem server_hash_reads_enabled:
  "TrafficServer_eq
     \<lparr>s_ident = ''a'', s_endpoint = ''10.0.0.1'', s_port = 80, s_protocol = ''TCP'', s_enabled = True\<rparr>
     \<lparr>s_ident = ''a'', s_endpoint = ''10.0.0.1'', s_port = 80, s_protocol = ''TCP'', s_enabled = False\<rparr>
   \<and> TrafficServer_hash h
       \<lparr>s_ident = ''a'', s_endpoint = ''10.0.0.1'', s_port = 80, s_protocol = ''TCP'', s_enabled = True\<rparr>
     = h ''TrafficServer(endpoint=10.0.0.1, port=80, protocol=TCP, enabled=True)''
   \<and> TrafficServer_hash h
       \<lparr>s_ident = ''a'', s_endpoint = ''10.0.0.1'', s_port = 80, s_protocol = ''TCP'', s_enabled = False\<rparr>
     = h ''TrafficServer(endpoint=10.0.0.1, port=80, protocol=TCP, enabled=False)''
   \<and> TrafficServer_hash (\<lambda>s. int (length s))
       \<lparr>s_ident = ''a'', s_endpoint = ''10.0.0.1'', s_port = 80, s_protocol = ''TCP'', s_enabled = True\<rparr>
     \<noteq> TrafficServer_hash (\<lambda>s. int (length s))
       \<lparr>s_ident = ''a'', s_endpoint = ''10.0.0.1'', s_port = 80, s_protocol = ''TCP'', s_enabled = False\<rparr>"
  by (simp add: TrafficServer_eq_def TrafficServer_hash_def TrafficServer_str_def str_int_def
      str_nat.simps digit_char_def str_bool_def)

subsection \<open>Deleting a rule\<close>

lemma deque_remove_int: "deque_remove xs (PyInt v) = Inl ValueError"
  by (induction xs) (simp_all add: TrafficRule_eq_obj_def)

lemma delete_rule_raises:
  "delete_rule h coll rule = (if contains_rule h coll rule then Inl ValueError else Inl KeyError)"
  by (auto simp: delete_rule_def contains_rule_def dict_contains_def deque_remove_int
      split: option.splits)

text \<open>
  C4. \<open>delete_rule\<close> raises KeyError when the rule is absent. When the rule is present
  it looks up the stored value 1 and asks the deque to remove that integer, which no
  rule equals: ValueError is raised and the collection is left as it was, the rule
  still in it.
\<close>

theorem delete_rule_present_raises:
  "contains_rule h (add_rule h TrafficRuleCollection_init r) r
   \<and> get_rule_count (add_rule h TrafficRuleCollection_init r) = 1
   \<and> delete_rule h (add_rule h TrafficRuleCollection_init r) r = Inl ValueError
   \<and> delete_rule h TrafficRuleCollection_init r = Inl KeyError"
  by (simp add: delete_rule_raises add_rule_def TrafficRuleCollection_init_def contains_rule_def
      dict_contains_def rule_same_iff TrafficRule_eq_refl get_rule_count_def)

subsection \<open>Round robin\<close>

lemma dict_contains_set_same:
  "same key key \<Longrightarrow> dict_contains same (dict_set same d key v) key"
  by (induction d) (auto simp: dict_contains_def)

lemma dict_contains_set_other:
  "dict_contains same d k \<Longrightarrow> dict_contains same (dict_set same d key v) k"
  by (induction d) (auto simp: dict_contains_def)

lemma dict_set_absent: "\<not> dict_contains same d key \<Longrightarrow> dict_set same d key v = d @ [(key, v)]"
  by (induction d) (auto simp: dict_contains_def)

lemma rr_append: "rr (length as + m) (as @ bs) = as @ rr m (bs @ as)"
proof (induction as arbitrary: bs)
  case Nil
  then show ?case by simp
next
  case (Cons a as)
  have "rr (length (a # as) + m) ((a # as) @ bs) = a # rr (length as + m) (as @ (bs @ [a]))"
    by simp
  also have "\<dots> = a # as @ rr m ((bs @ [a]) @ as)"
    by (simp only: Cons.IH)
  finally show ?case by simp
qed

lemma rr_full: "rr (length xs + m) xs = xs @ rr m xs"
  using rr_append [of xs m "[]"] by simp

lemma rr_cycles: "rr (length xs * k) xs = concat (replicate k xs)"
proof (induction k)
  case 0
  then show ?case by simp
next
  case (Suc k)
  have "rr (length xs * Suc k) xs = rr (length xs + length xs * k) xs"
    by simp
  also have "\<dots> = xs @ rr (length xs * k) xs"
    by (rule rr_full)
  finally show ?case by (simp add: Suc.IH)
qed

lemma filter_concat_replicate:
  "length (filter P (concat (replicate k xs))) = k * length (filter P xs)"
  by (induction k) simp_all

lemma distinct_eq_count:
  "distinct_eq xs \<Longrightarrow> r \<in> set xs \<Longrightarrow> length (filter (TrafficRule_eq r) xs) = 1"
proof (induction xs)
  case Nil
  then show ?case by simp
next
  case (Cons x xs)
  from Cons.prems(1) have nox: "\<forall>y \<in> set xs. \<not> TrafficRule_eq x y" and d: "distinct_eq xs"
    by (auto simp: list_ex_iff)
  show ?case
  proof (cases "TrafficRule_eq r x")
    case True
    then have rx: "\<And>y. TrafficRule_eq r y = TrafficRule_eq x y"
      by (auto simp: TrafficRule_eq_def)
    from nox have "filter (TrafficRule_eq r) xs = []"
      by (simp add: rx filter_empty_conv)
    with True show ?thesis by simp
  next
    case False
    then have "r \<noteq> x" using TrafficRule_eq_refl by auto
    with Cons.prems(2) have "r \<in> set xs" by simp
    with d have "length (filter (TrafficRule_eq r) xs) = 1" by (rule Cons.IH)
    with False show ?thesis by simp
  qed
qed

lemma distinct_eq_append_one:
  "distinct_eq (xs @ [x]) \<longleftrightarrow> distinct_eq xs \<and> \<not> list_ex (\<lambda>y. TrafficRule_eq y x) xs"
  by (induction xs) (auto simp: list_ex_iff)

lemma distinct_eq_rotate: "distinct_eq (x # xs) \<Longrightarrow> distinct_eq (xs @ [x])"
  by (auto simp: distinct_eq_append_one list_ex_iff dest: TrafficRule_eq_sym)

lemma coll_ok_rotate:
  assumes "coll_ok h c" "rules_deque c = x # xs"
  shows "coll_ok h (run_finally h c x)" "rules_deque (run_finally h c x) = xs @ [x]"
proof -
  from assms have inmap: "dict_contains (rule_same h) (rules_map c) x"
    by (simp add: coll_ok_def)
  then have rf: "run_finally h c x = c\<lparr>rules_deque := xs @ [x]\<rparr>"
    by (simp add: run_finally_def deque_rotate_left_def assms(2))
  show "rules_deque (run_finally h c x) = xs @ [x]" by (simp add: rf)
  from assms show "coll_ok h (run_finally h c x)"
    by (auto simp: rf coll_ok_def distinct_eq_rotate simp del: distinct_eq.simps)
qed

lemma yields_suspended:
  "coll_ok h c \<Longrightarrow> rules_deque c = x # xs \<Longrightarrow>
   yields h n \<lparr>g_coll = c, g_item = Some x\<rparr> = rr n (xs @ [x])"
proof (induction n arbitrary: c x xs)
  case 0
  then show ?case by simp
next
  case (Suc n)
  let ?c = "run_finally h c x"
  have ok: "coll_ok h ?c" and rs: "rules_deque ?c = xs @ [x]"
    using coll_ok_rotate [OF Suc.prems] by simp_all
  obtain y ys where ys: "xs @ [x] = y # ys"
    by (cases "xs @ [x]") simp_all
  from ok rs have ne: "rules_map ?c \<noteq> []"
    by (auto simp: coll_ok_def)
  have step: "gen_next h \<lparr>g_coll = c, g_item = Some x\<rparr> = (Yield y, \<lparr>g_coll = ?c, g_item = Some y\<rparr>)"
    using ne rs ys by (simp add: gen_next_def Let_def)
  have "yields h n \<lparr>g_coll = ?c, g_item = Some y\<rparr> = rr n (ys @ [y])"
    using ok rs ys by (intro Suc.IH) simp_all
  with step ys show ?case by simp
qed

lemma yields_round_robin:
  assumes "coll_ok h c"
  shows "yields h n (round_robin_rule_generator c) = rr n (rules_deque c)"
proof (cases n)
  case 0
  then show ?thesis by simp
next
  case (Suc m)
  show ?thesis
  proof (cases "rules_deque c")
    case Nil
    with assms have "rules_map c = []" by (simp add: coll_ok_def)
    with Nil Suc show ?thesis
      by (simp add: round_robin_rule_generator_def gen_next_def)
  next
    case (Cons x xs)
    with assms have ne: "rules_map c \<noteq> []" by (auto simp: coll_ok_def)
    have "gen_next h (round_robin_rule_generator c) = (Yield x, \<lparr>g_coll = c, g_item = Some x\<rparr>)"
      using ne Cons by (simp add: round_robin_rule_generator_def gen_next_def)
    then show ?thesis
      using Suc Cons yields_suspended [OF assms Cons, of m] by simp
  qed
qed

lemma coll_ok_init: "coll_ok h TrafficRuleCollection_init"
  by (simp add: coll_ok_def TrafficRuleCollection_init_def)

lemma coll_ok_clear_rules: "coll_ok h (clear_rules c)"
  by (simp add: coll_ok_def clear_rules_def)

lemma dict_contains_iff:
  "dict_contains same d key \<longleftrightarrow> (\<exists>k \<in> set (map fst d). same k key)"
  by (induction d) (auto simp: dict_contains_def)

lemma coll_ok_add_rule:
  assumes "coll_ok h c"
  shows "coll_ok h (add_rule h c rule)"
proof (cases "dict_contains (rule_same h) (rules_map c) rule")
  case True
  with assms show ?thesis by (simp add: add_rule_def)
next
  case False
  have new: "add_rule h c rule
      = \<lparr>rules_map = dict_set (rule_same h) (rules_map c) rule 1, rules_deque = rules_deque c @ [rule]\<rparr>"
    using False by (simp add: add_rule_def)
  have len: "length (dict_set (rule_same h) (rules_map c) rule 1) = length (rules_deque c @ [rule])"
    using assms False by (simp add: dict_set_absent coll_ok_def)
  have old: "list_all (dict_contains (rule_same h) (rules_map c)) (rules_deque c)"
    using assms by (simp add: coll_ok_def)
  have all: "list_all (dict_contains (rule_same h) (dict_set (rule_same h) (rules_map c) rule 1))
               (rules_deque c @ [rule])"
    using old
    by (auto simp: list_all_iff dict_contains_set_other dict_contains_set_same rule_same_iff
        TrafficRule_eq_refl)
  have fresh: "\<not> list_ex (\<lambda>y. TrafficRule_eq y rule) (rules_deque c)"
  proof
    assume "list_ex (\<lambda>y. TrafficRule_eq y rule) (rules_deque c)"
    then obtain y where y: "y \<in> set (rules_deque c)" "TrafficRule_eq y rule"
      by (auto simp: list_ex_iff)
    from old y(1) have "dict_contains (rule_same h) (rules_map c) y"
      by (simp add: list_all_iff)
    then obtain k where k: "k \<in> set (map fst (rules_map c))" "rule_same h k y"
      by (auto simp: dict_contains_iff)
    from k(2) y(2) have "rule_same h k rule"
      by (simp add: rule_same_iff TrafficRule_eq_def)
    with k(1) have "dict_contains (rule_same h) (rules_map c) rule"
      by (auto simp: dict_contains_iff)
    with False show False by simp
  qed
  have "distinct_eq (rules_deque c @ [rule])"
    using assms fresh by (simp add: distinct_eq_append_one coll_ok_def)
  with len all show ?thesis
    by (simp add: new coll_ok_def)
qed

lemma coll_ok_add_rules: "coll_ok h c \<Longrightarrow> coll_ok h (add_rules h c rs)"
  by (induction rs arbitrary: c) (simp_all add: coll_ok_add_rule)

text \<open>
  C6. For a collection in the state its own operations leave it in, holding \<open>N\<close>
  rules and touched by nobody else, the first \<open>N * k\<close> rules the generator yields are
  the deque repeated \<open>k\<close> times: each rule of the collection is yielded exactly \<open>k\<close>
  times, each step giving the head and moving it to the back. On an emptied collection
  the next step ends the sequence.
\<close>

theorem round_robin_fair:
  assumes "coll_ok h coll"
  shows "yields h (get_rule_count coll * k) (round_robin_rule_generator coll)
           = concat (replicate k (rules_deque coll))
     \<and> (\<forall>r \<in> set (rules_deque coll).
           length (filter (TrafficRule_eq r)
             (yields h (get_rule_count coll * k) (round_robin_rule_generator coll))) = k)
     \<and> fst (gen_next h \<lparr>g_coll = clear_rules coll, g_item = it\<rparr>) = StopIteration"
proof -
  have n: "get_rule_count coll = length (rules_deque coll)"
    using assms by (simp add: get_rule_count_def coll_ok_def)
  have y: "yields h (get_rule_count coll * k) (round_robin_rule_generator coll)
           = concat (replicate k (rules_deque coll))"
    by (simp add: yields_round_robin [OF assms] n rr_cycles)
  from assms have d: "distinct_eq (rules_deque coll)" by (simp add: coll_ok_def)
  have c: "\<forall>r \<in> set (rules_deque coll).
           length (filter (TrafficRule_eq r)
             (yields h (get_rule_count coll * k) (round_robin_rule_generator coll))) = k"
    by (simp add: y filter_concat_replicate distinct_eq_count [OF d])
  have s: "fst (gen_next h \<lparr>g_coll = clear_rules coll, g_item = it\<rparr>) = StopIteration"
    by (cases it) (simp_all add: gen_next_def clear_rules_def run_finally_def dict_contains_def)
  from y c s show ?thesis by simp
qed

theorem round_robin_fair_witness:
  "coll_ok (\<lambda>s. int (length s)) (add_rules (\<lambda>s. int (length s)) TrafficRuleCollection_init [rule_a, rule_b, rule_a])
   \<and> yields (\<lambda>s. int (length s)) 4
        (round_robin_rule_generator (add_rules (\<lambda>s. int (length s)) TrafficRuleCollection_init [rule_a, rule_b, rule_a]))
      = [rule_a, rule_b, rule_a, rule_b]
   \<and> length (filter (TrafficRule_eq rule_b)
        (yields (\<lambda>s. int (length s)) 4
          (round_robin_rule_generator (add_rules (\<lambda>s. int (length s)) TrafficRuleCollection_init [rule_a, rule_b, rule_a])))) = 2"
proof -
  define h :: "string \<Rightarrow> int" where "h = (\<lambda>s. int (length s))"
  define c where "c = add_rules h TrafficRuleCollection_init [rule_a, rule_b, rule_a]"
  have ok: "coll_ok h c"
    unfolding c_def by (rule coll_ok_add_rules) (rule coll_ok_init)
  have ab: "\<not> TrafficRule_eq rule_a rule_b" "\<not> TrafficRule_eq rule_b rule_a"
    by (simp_all add: TrafficRule_eq_def rule_a_def rule_b_def)
  have cv: "c = \<lparr>rules_map = [(rule_a, 1), (rule_b, 1)], rules_deque = [rule_a, rule_b]\<rparr>"
    unfolding c_def
    by (simp add: add_rule_def TrafficRuleCollection_init_def dict_contains_def rule_same_iff
        TrafficRule_eq_refl ab)
  have n: "get_rule_count c = 2"
    by (simp add: cv get_rule_count_def)
  have r: "rules_deque c = [rule_a, rule_b]"
    by (simp add: cv)
  have four: "get_rule_count c * 2 = 4"
    by (simp add: n)
  have rep: "concat (replicate 2 (rules_deque c)) = [rule_a, rule_b, rule_a, rule_b]"
    by (simp add: r numeral_2_eq_2)
  have mem: "rule_b \<in> set (rules_deque c)"
    by (simp add: r)
  note fair = round_robin_fair [OF ok, of 2 None, unfolded four rep]
  from fair have y: "yields h 4 (round_robin_rule_generator c) = [rule_a, rule_b, rule_a, rule_b]"
    by (rule conjunct1)
  from fair mem
  have "length (filter (TrafficRule_eq rule_b) (yields h 4 (round_robin_rule_generator c))) = 2"
    by blast
  with ok y show ?thesis
    unfolding c_def h_def by blast
qed

subsection \<open>Metric keys\<close>

lemma split_on_no_sep: "c \<notin> set s \<Longrightarrow> split_on c s = [s]"
  by (induction s) auto

lemma split_on_field: "c \<notin> set a \<Longrightarrow> split_on c (a @ c # b) = a # split_on c b"
  by (induction a) (auto split: list.splits)

lemma digit_char_not_colon: "digit_char d \<noteq> CHR '':''" "CHR '':'' \<noteq> digit_char d"
  by (simp_all add: digit_char_def)

lemma str_nat_no_colon: "CHR '':'' \<notin> set (str_nat n)"
proof (induction n rule: str_nat.induct)
  case (1 n)
  show ?case
  proof (cases "n < 10")
    case True
    then show ?thesis
      by (subst str_nat.simps) (simp add: digit_char_not_colon)
  next
    case False
    with 1 have "CHR '':'' \<notin> set (str_nat (n div 10))" by simp
    with False show ?thesis
      by (subst str_nat.simps) (simp add: digit_char_not_colon)
  qed
qed

lemma str_int_no_colon: "CHR '':'' \<notin> set (str_int i)"
  by (simp add: str_int_def str_nat_no_colon)

lemma str_bool_no_colon: "CHR '':'' \<notin> set (str_bool b)"
  by (simp add: str_bool_def)

lemma str_bool_True: "str_bool c = ''True'' \<longleftrightarrow> c"
  by (simp add: str_bool_def)

lemma split_metric:
  assumes "CHR '':'' \<notin> set s" "CHR '':'' \<notin> set d" "CHR '':'' \<notin> set proto"
  shows "split_on CHR '':'' (to_metric s d p proto c success)
           = [s, d, str_int p, proto, str_bool c, if success then ''success'' else ''failure'']"
proof -
  let ?r = "if success then ''success'' else ''failure''"
  have r: "split_on CHR '':'' ?r = [?r]"
    by (rule split_on_no_sep) simp
  have m: "to_metric s d p proto c success
             = s @ CHR '':'' # (d @ CHR '':'' # (str_int p @ CHR '':'' # (proto @ CHR '':'' #
                 (str_bool c @ CHR '':'' # ?r))))"
    by (simp add: to_metric_def)
  show ?thesis
    unfolding m
    by (simp only: split_on_field [OF assms(1)] split_on_field [OF assms(2)]
        split_on_field [OF assms(3)] split_on_field [OF str_int_no_colon]
        split_on_field [OF str_bool_no_colon] r)
qed

text \<open>
  C8. When the source, the destination and the protocol contain no colon,
  \<open>from_metric (to_metric s d p proto c success)\<close> is a record with that source,
  destination, protocol and connected flag, with the decimal text of the port as its
  port, zero counts and a fresh id. A colon inside a field gives a seventh part and
  the unpacking raises ValueError, as for the IPv6 loopback address.
\<close>

theorem metric_round_trip:
  assumes "CHR '':'' \<notin> set s" "CHR '':'' \<notin> set d" "CHR '':'' \<notin> set proto"
  shows "from_metric fresh (to_metric s d p proto c success)
           = Inr \<lparr>rec_ident = fst fresh, rec_source = s, rec_destination = d,
                  rec_port = str_int p, rec_protocol = proto, rec_success_count = 0,
                  rec_failure_count = 0, rec_connected = c, rec_created = snd fresh\<rparr>"
  by (simp add: from_metric_def split_metric [OF assms] str_bool_True)

theorem metric_round_trip_witness:
  "CHR '':'' \<notin> set ''10.0.0.1'' \<and> CHR '':'' \<notin> set ''10.0.0.2'' \<and> CHR '':'' \<notin> set ''TCP''
   \<and> from_metric (''id'', 7) (to_metric ''10.0.0.1'' ''10.0.0.2'' 80 ''TCP'' True False)
       = Inr \<lparr>rec_ident = ''id'', rec_source = ''10.0.0.1'', rec_destination = ''10.0.0.2'',
              rec_port = ''80'', rec_protocol = ''TCP'', rec_success_count = 0,
              rec_failure_count = 0, rec_connected = True, rec_created = 7\<rparr>"
proof -
  have a: "CHR '':'' \<notin> set ''10.0.0.1''" and b: "CHR '':'' \<notin> set ''10.0.0.2''"
    and c: "CHR '':'' \<notin> set ''TCP''"
    by simp_all
  have p: "str_int 80 = ''80''"
    by (simp add: str_int_def str_nat.simps digit_char_def)
  from metric_round_trip [OF a b c, of "(''id'', 7)" 80 True False] a b c show ?thesis
    by (simp add: p)
qed

theorem metric_round_trip_ipv6_raises:
  "from_metric (''id'', 7) (to_metric ''::1'' ''10.0.0.2'' 80 ''TCP'' True True) = Inl ValueError"
  by (simp add: from_metric_def to_metric_def str_int_def str_nat.simps digit_char_def str_bool_def)

subsection \<open>Draining the counters\<close>

lemma dict_get_set_eq:
  "dict_get (=) (dict_set (=) d key v) k = (if k = key then Some v else dict_get (=) d k)"
  by (induction d) auto

lemma report_key_keys: "map fst (fst (report_key arrivals st key)) = map fst (fst st)"
  by (simp add: report_key_def Let_def on_counter_keys)

lemma report_key_other:
  assumes "k \<noteq> key"
  shows "count_of (fst (report_key arrivals st key)) k = count_of (fst st) k"
    and "dict_get (=) (snd (report_key arrivals st key)) k = dict_get (=) (snd st) k"
  using assms
  by (simp_all add: report_key_def Let_def count_of_on_counter_other dict_get_set_eq)

lemma report_key_zero:
  assumes "count_of (fst st) key = 0"
  shows "report_key arrivals st key = st"
  using assms by (simp add: report_key_def Let_def)

lemma report_key_drains:
  assumes "key \<in> set (map fst (fst st))" "count_of (fst st) key = V" "V \<noteq> 0"
  shows "count_of (fst (report_key arrivals st key)) key = (V + arrivals key) - V"
    and "dict_get (=) (snd (report_key arrivals st key)) key = Some V"
proof -
  let ?busy = "on_counter (\<lambda>c. Counter_inc c (arrivals key)) key (fst st)"
  have busy: "count_of ?busy key = V + arrivals key"
    using assms(1,2) by (simp add: count_of_on_counter_same Counter_count_def Counter_inc_def)
  have in_busy: "key \<in> set (map fst ?busy)"
    using assms(1) by (simp only: on_counter_keys)
  have "count_of (on_counter (\<lambda>c. Counter_dec c V) key ?busy) key = (V + arrivals key) - V"
    by (simp only: count_of_on_counter_same [OF in_busy] busy)
       (simp add: Counter_count_def Counter_dec_def Counter_inc_def)
  with assms(2,3) show "count_of (fst (report_key arrivals st key)) key = (V + arrivals key) - V"
    by (simp add: report_key_def Let_def)
  from assms(2,3) show "dict_get (=) (snd (report_key arrivals st key)) key = Some V"
    by (simp add: report_key_def Let_def dict_get_set_eq)
qed

lemma report_loop_keys:
  "map fst (fst (fold (\<lambda>key st. report_key arrivals st key) ks st)) = map fst (fst st)"
  by (induction ks arbitrary: st) (simp_all add: report_key_keys)

lemma report_loop_untouched:
  assumes "k \<notin> set ks"
  shows "count_of (fst (fold (\<lambda>key st. report_key arrivals st key) ks st)) k = count_of (fst st) k
     \<and> dict_get (=) (snd (fold (\<lambda>key st. report_key arrivals st key) ks st)) k = dict_get (=) (snd st) k"
  using assms by (induction ks arbitrary: st) (simp_all add: report_key_other)

lemma report_loop_zero:
  assumes "count_of (fst st) k = 0"
  shows "count_of (fst (fold (\<lambda>key st. report_key arrivals st key) ks st)) k = 0
     \<and> dict_get (=) (snd (fold (\<lambda>key st. report_key arrivals st key) ks st)) k = dict_get (=) (snd st) k"
  using assms
proof (induction ks arbitrary: st)
  case Nil
  then show ?case by simp
next
  case (Cons key ks)
  show ?case
  proof (cases "key = k")
    case True
    with Cons.prems have "report_key arrivals st key = st"
      by (simp add: report_key_zero)
    with Cons show ?thesis by simp
  next
    case False
    then have "k \<noteq> key" by simp
    from report_key_other [OF this, of arrivals st] Cons.prems
    have "count_of (fst (report_key arrivals st key)) k = 0"
      and "dict_get (=) (snd (report_key arrivals st key)) k = dict_get (=) (snd st) k"
      by simp_all
    with Cons.IH [of "report_key arrivals st key"] show ?thesis by simp
  qed
qed

lemma report_loop_drains:
  assumes "distinct ks" "k \<in> set ks" "k \<in> set (map fst (fst st))"
    "count_of (fst st) k = V" "V \<noteq> 0"
  shows "count_of (fst (fold (\<lambda>key st. report_key arrivals st key) ks st)) k = (V + arrivals k) - V
     \<and> dict_get (=) (snd (fold (\<lambda>key st. report_key arrivals st key) ks st)) k = Some V"
  using assms
proof (induction ks arbitrary: st)
  case Nil
  then show ?case by simp
next
  case (Cons key ks)
  show ?case
  proof (cases "key = k")
    case True
    from Cons.prems(1) True have "k \<notin> set ks" by simp
    from report_loop_untouched [OF this, of arrivals "report_key arrivals st k"]
      report_key_drains [OF Cons.prems(3,4,5), of arrivals]
    show ?thesis by (simp add: True)
  next
    case False
    then have ne: "k \<noteq> key" by simp
    from Cons.prems(2) False have in_ks: "k \<in> set ks" by simp
    from Cons.prems(1) have d: "distinct ks" by simp
    have keys: "k \<in> set (map fst (fst (report_key arrivals st key)))"
      using Cons.prems(3) by (simp only: report_key_keys)
    have cnt: "count_of (fst (report_key arrivals st key)) k = V"
      using report_key_other(1) [OF ne] Cons.prems(4) by simp
    from Cons.IH [OF d in_ks keys cnt Cons.prems(5)] show ?thesis by simp
  qed
qed

lemma sent_value_report:
  "sent_value (snd (report_during arrivals cache)) k
     = dict_get (=) (snd (fold (\<lambda>key st. report_key arrivals st key) (map fst cache) (cache, []))) k"
  by (simp add: report_during_def sent_value_def Let_def)

lemma distinct_counter: "distinct (map fst cache) \<Longrightarrow> distinct (map fst (counter cache key))"
  by (simp add: counter_def)

lemma distinct_record_probe:
  "distinct (map fst cache) \<Longrightarrow> distinct (map fst (record_probe self S cache))"
  by (simp add: record_probe_def Let_def on_counter_keys distinct_counter)

text \<open>
  C5. Let the cache have distinct keys, as \<open>counter\<close> keeps them, and let the reporter
  read the nonzero value \<open>V\<close> from the counter of \<open>k\<close>. After the report the counter
  holds its count at the moment of the decrement minus \<open>V\<close>, which is what arrived
  between the read and the decrement; the message carries \<open>V\<close> for \<open>k\<close>. With no
  arrivals the count is the count before the report minus \<open>V\<close>. The next report sends for
  \<open>k\<close> exactly the arrivals, and nothing when there were none: nothing drained is
  sent again.
\<close>

theorem drain_decrements_by_drained_value:
  assumes "distinct (map fst cache)" "k \<in> set (map fst cache)" "count_of cache k = V" "V \<noteq> 0"
  shows "count_of (fst (report_during arrivals cache)) k = (V + arrivals k) - V
     \<and> sent_value (snd (report_during arrivals cache)) k = Some V
     \<and> count_of (fst (report cache)) k = count_of cache k - V
     \<and> sent_value (snd (report (fst (report_during arrivals cache)))) k
         = (if arrivals k = 0 then None else Some (arrivals k))"
proof -
  let ?loop = "\<lambda>a c. fold (\<lambda>key st. report_key a st key) (map fst c) (c, [])"
  have first: "count_of (fst (?loop a cache)) k = (V + a k) - V
     \<and> dict_get (=) (snd (?loop a cache)) k = Some V" for a
    using report_loop_drains [of "map fst cache" k "(cache, [])" V a] assms by simp
  have c1: "count_of (fst (report_during arrivals cache)) k = (V + arrivals k) - V"
    using first [of arrivals] by (simp add: report_during_def Let_def)
  have s1: "sent_value (snd (report_during arrivals cache)) k = Some V"
    using first [of arrivals] by (simp add: sent_value_report)
  have c2: "count_of (fst (report cache)) k = count_of cache k - V"
    using first [of "\<lambda>key. 0"] assms(3) by (simp add: report_def report_during_def Let_def)
  let ?cache' = "fst (report_during arrivals cache)"
  have keys': "map fst ?cache' = map fst cache"
    by (simp add: report_during_def Let_def report_loop_keys)
  have cnt': "count_of ?cache' k = arrivals k"
    using c1 by simp
  have s2: "sent_value (snd (report ?cache')) k
         = (if arrivals k = 0 then None else Some (arrivals k))"
  proof (cases "arrivals k = 0")
    case True
    with cnt' have "count_of (fst (?cache', [])) k = 0" by simp
    from report_loop_zero [OF this, of "\<lambda>key. 0" "map fst ?cache'"] True show ?thesis
      by (simp add: report_def sent_value_report)
  next
    case False
    have "dict_get (=) (snd (?loop (\<lambda>key. 0) ?cache')) k = Some (arrivals k)"
      using report_loop_drains [of "map fst ?cache'" k "(?cache', [])" "arrivals k" "\<lambda>key. 0"]
        assms(1,2) keys' cnt' False by simp
    with False show ?thesis
      by (simp add: report_def sent_value_report)
  qed
  from c1 s1 c2 s2 show ?thesis by blast
qed

theorem drain_decrements_by_drained_value_witness:
  "distinct (map fst [(''a'', 5), (''b'', 0::int)]) \<and> ''a'' \<in> set (map fst [(''a'', 5), (''b'', 0::int)])
   \<and> count_of [(''a'', 5), (''b'', 0)] ''a'' = 5 \<and> (5::int) \<noteq> 0
   \<and> count_of (fst (report_during (\<lambda>key. 2) [(''a'', 5), (''b'', 0)])) ''a'' = 2
   \<and> sent_value (snd (report_during (\<lambda>key. 2) [(''a'', 5), (''b'', 0)])) ''a'' = Some 5
   \<and> count_of (fst (report [(''a'', 5), (''b'', 0)])) ''a'' = 0
   \<and> sent_value (snd (report (fst (report_during (\<lambda>key. 2) [(''a'', 5), (''b'', 0)])))) ''a'' = Some 2"
proof -
  have d: "distinct (map fst [(''a'', 5), (''b'', 0::int)])" by simp
  have m: "''a'' \<in> set (map fst [(''a'', 5), (''b'', 0::int)])" by simp
  have c: "count_of [(''a'', 5), (''b'', 0)] ''a'' = 5" by (simp add: count_of_def Counter_count_def)
  have v: "(5::int) \<noteq> 0" by simp
  from drain_decrements_by_drained_value [OF d m c v, of "\<lambda>key. 2"] d m c v
  show ?thesis by simp
qed

subsection \<open>The record-store subscriber\<close>

lemma metric_ab_text: "metric_ab = ''10.0.0.1:10.0.0.2:80:TCP:True:success''"
  by (simp add: metric_ab_def to_metric_def str_int_def str_nat.simps digit_char_def str_bool_def)

lemma metric_ab_parts:
  "split_on CHR '':'' metric_ab = [''10.0.0.1'', ''10.0.0.2'', ''80'', ''TCP'', ''True'', ''success'']"
  by (simp add: metric_ab_text)

lemma metric_ab_success: "is_success metric_ab"
  by (simp add: metric_ab_text is_success_def)

text \<open>
  C9. A batch of two messages that both carry the success key of one tuple, with the
  values 3 and 4, gives one row for the tuple. Its success count is 4, the value of the
  later message: the value is assigned to the count, not added to it.
\<close>

theorem handle_keeps_last_value:
  "handle fresh [[(metric_ab, 3)], [(metric_ab, 4)]]
     = Inr [\<lparr>rec_ident = fst (fresh 0), rec_source = ''10.0.0.1'', rec_destination = ''10.0.0.2'',
              rec_port = ''80'', rec_protocol = ''TCP'', rec_success_count = 4,
              rec_failure_count = 0, rec_connected = True, rec_created = snd (fresh 0)\<rparr>]"
  by (simp add: handle_def handle_metric_def from_metric_def metric_ab_parts metric_ab_success
      TrafficRecord_str_def str_bool_def Let_def)

subsection \<open>Deleting all servers of a worker\<close>

lemma server_same_refl: "server_same h a a"
  by (simp add: server_same_def TrafficServer_eq_def)

lemma servers_differ: "\<not> TrafficServer_eq server_a server_b" "\<not> TrafficServer_eq server_b server_a"
  by (simp_all add: TrafficServer_eq_def server_a_def server_b_def)

lemma add_two_servers:
  "add_servers h TrafficServerWorker_init [server_a, server_b]
     = Inr \<lparr>w_servers = [server_a, server_b], w_running_servers = [(server_a, 0), (server_b, 1)],
            w_next_instance = 2, w_closed = []\<rparr>"
  by (simp add: add_server_def TrafficServerWorker_init_def has_server_def known_protocol_def
      server_same_def servers_differ)
     (simp add: server_a_def server_b_def)

lemma list_remove_length: "list_remove xs v = Inr ys \<Longrightarrow> Suc (length ys) = length xs"
  by (induction xs arbitrary: ys) (auto split: if_splits sum.splits)

lemma stop_server_keeps_list: "stop_server h self s = Inr stopped \<Longrightarrow> w_servers stopped = w_servers self"
  by (auto simp: stop_server_def split: option.splits sum.splits)

lemma delete_all_loop_lower_bound:
  "delete_all_loop h i self = Inr done \<Longrightarrow> min i (length (w_servers self)) \<le> length (w_servers done)"
proof (induction h i self rule: delete_all_loop.induct)
  case (1 h i self)
  show ?case
  proof (cases "i < length (w_servers self)")
    case False
    with "1.prems" show ?thesis
      by (simp add: delete_all_loop.simps)
  next
    case True
    from True "1.prems" obtain stopped remaining
      where s: "stop_server h self (w_servers self ! i) = Inr stopped"
        and r: "list_remove (w_servers stopped) (w_servers self ! i) = Inr remaining"
        and rest: "delete_all_loop h (Suc i) (stopped\<lparr>w_servers := remaining\<rparr>) = Inr done"
      by (subst (asm) delete_all_loop.simps) (auto split: sum.splits)
    from "1.IH" [OF True s r rest]
    have "min (Suc i) (length remaining) \<le> length (w_servers done)"
      by simp
    moreover from list_remove_length [OF r] stop_server_keeps_list [OF s]
    have "Suc (length remaining) = length (w_servers self)"
      by simp
    ultimately show ?thesis using True by simp
  qed
qed

lemma delete_all_servers_never_empties:
  assumes "2 \<le> get_server_count self" "delete_all_servers h self = Inr done"
  shows "1 \<le> get_server_count done"
proof -
  from assms(1) have pos: "0 < length (w_servers self)"
    by (cases "w_servers self") (simp_all add: get_server_count_def)
  with assms(2) obtain stopped remaining
    where s: "stop_server h self (w_servers self ! 0) = Inr stopped"
      and r: "list_remove (w_servers stopped) (w_servers self ! 0) = Inr remaining"
      and rest: "delete_all_loop h (Suc 0) (stopped\<lparr>w_servers := remaining\<rparr>) = Inr done"
    unfolding delete_all_servers_def
    by (subst (asm) delete_all_loop.simps) (auto split: sum.splits)
  from list_remove_length [OF r] stop_server_keeps_list [OF s] assms(1)
  have "1 \<le> length remaining"
    by (simp add: get_server_count_def)
  with delete_all_loop_lower_bound [OF rest] show ?thesis
    by (simp add: get_server_count_def)
qed

text \<open>
  C10. A worker that hosts two servers still hosts the second one after
  \<open>delete_all_servers\<close>: the loop removes the first server from the list it is
  iterating over, the index moves to 1 and the list has length 1, so the loop ends.
  The second listener is never closed.
\<close>

theorem delete_all_servers_leaves_a_server:
  "add_servers h TrafficServerWorker_init [server_a, server_b]
     = Inr \<lparr>w_servers = [server_a, server_b], w_running_servers = [(server_a, 0), (server_b, 1)],
            w_next_instance = 2, w_closed = []\<rparr>
   \<and> delete_all_servers h
       \<lparr>w_servers = [server_a, server_b], w_running_servers = [(server_a, 0), (server_b, 1)],
        w_next_instance = 2, w_closed = []\<rparr>
     = Inr \<lparr>w_servers = [server_b], w_running_servers = [(server_b, 1)],
            w_next_instance = 2, w_closed = [0]\<rparr>
   \<and> get_server_count \<lparr>w_servers = [server_b], w_running_servers = [(server_b, 1)],
            w_next_instance = 2, w_closed = [0]\<rparr> = 1
   \<and> has_server \<lparr>w_servers = [server_b], w_running_servers = [(server_b, 1)],
            w_next_instance = 2, w_closed = [0]\<rparr> server_b"
proof -
  let ?before = "\<lparr>w_servers = [server_a, server_b], w_running_servers = [(server_a, 0), (server_b, 1)],
        w_next_instance = 2, w_closed = []\<rparr>"
  let ?after = "\<lparr>w_servers = [server_b], w_running_servers = [(server_b, 1)],
        w_next_instance = 2, w_closed = [0]\<rparr>"
  have added: "add_servers h TrafficServerWorker_init [server_a, server_b] = Inr ?before"
    by (rule add_two_servers)
  have deleted: "delete_all_servers h ?before = Inr ?after"
    by (simp add: delete_all_servers_def delete_all_loop.simps stop_server_def server_same_refl
        TrafficServer_eq_def)
  have left: "get_server_count ?after = 1"
    by (simp add: get_server_count_def)
  have still: "has_server ?after server_b"
    by (simp add: has_server_def TrafficServer_eq_def)
  from added deleted left still show ?thesis
    by (intro conjI)
qed

subsection \<open>The controller\<close>

lemma str_nat_0: "str_nat 0 = ''0''" and str_nat_1: "str_nat (Suc 0) = ''1''"
  by (simp_all add: str_nat.simps digit_char_def)

lemma one_worker_value:
  "start_clients example_env 2 TrafficController_init [rule_a]
     = (None, \<lparr>rules_registry = [(''client_a'', context_u0)],
               workers_registry = [(''client_u0'', context_u0)],
               rpc_log = [Add ''client'' (Some ''/tmp/axon_client_worker_u0'') [rule_a]],
               uuids_drawn = 2\<rparr>)"
  by (simp add: start_clients_def start_rules_def TrafficController_init_def get_all_rules_def
      get_all_workers_def get_all_keys_def ceil_div_def create_workers_and_add_rules_def
      upt_conv_Cons slice_def slice_bound_def example_env_def str_nat_0
      worker_name_def worker_key_def MemCache_add_def rule_key_def rule_a_def context_u0_def
      Let_def)

lemma two_workers_value:
  "start_clients example_env 2 TrafficController_init [rule_a, rule_b]
     = (None, \<lparr>rules_registry = [(''client_a'', context_u0), (''client_b'', context_u1)],
               workers_registry = [(''client_u0'', context_u0), (''client_u1'', context_u1)],
               rpc_log = [Add ''client'' (Some ''/tmp/axon_client_worker_u0'') [rule_a],
                          Add ''client'' (Some ''/tmp/axon_client_worker_u1'') [rule_b]],
               uuids_drawn = 2\<rparr>)"
  by (simp add: start_clients_def start_rules_def TrafficController_init_def get_all_rules_def
      get_all_workers_def get_all_keys_def ceil_div_def create_workers_and_add_rules_def
      upt_conv_Cons slice_def slice_bound_def example_env_def str_nat_0 str_nat_1
      worker_name_def worker_key_def MemCache_add_def rule_key_def rule_a_def rule_b_def
      context_u0_def context_u1_def Let_def)


lemma add_to_existing_worker_raises:
  "add_to_existing_worker rid new_rules rules_per_worker worker_type self (KeyInt position) (KeyStr element)
     = Inl TypeError"
  by (simp add: add_to_existing_worker_def py_mul_def py_add_def)

lemma add_rules_to_existing_workers_raises:
  assumes "get_all_workers self worker_type \<noteq> []"
  shows "add_rules_to_existing_workers rid self new_rules rules_per_worker worker_type
           = (Some TypeError, self)"
proof -
  from assms obtain w ws where ws: "get_all_workers self worker_type = w # ws"
    by (cases "get_all_workers self worker_type") simp_all
  show ?thesis
    by (simp add: add_rules_to_existing_workers_def ws add_to_existing_worker_raises)
qed

lemma start_rules_existing_workers_raises:
  assumes "0 < worker_count" "length (get_all_workers self worker_type) = worker_count"
  shows "start_rules env rid worker_count worker_type self rules = (Some TypeError, self)"
proof -
  from assms have "get_all_workers self worker_type \<noteq> []" by auto
  then show ?thesis
    using assms by (simp add: start_rules_def Let_def add_rules_to_existing_workers_raises)
qed

text \<open>
  C3. When as many client workers are live as the target count, \<open>start_clients\<close>
  raises TypeError in the first round of \<open>_add_rules_to_existing_workers\<close>: the loop
  variables are bound the wrong way round, the slice start is the worker key repeated,
  and adding the integer to it fails. No RPC is sent, no rule is registered, the
  controller is as it was.
\<close>

theorem start_clients_existing_workers_raises:
  assumes "0 < CLIENT_WORKER_COUNT"
    and "length (get_all_workers self ''client'') = CLIENT_WORKER_COUNT"
  shows "start_clients env CLIENT_WORKER_COUNT self rules = (Some TypeError, self)"
  unfolding start_clients_def using assms by (rule start_rules_existing_workers_raises)

theorem start_clients_existing_workers_raises_witness:
  "(0::nat) < 2 \<and> length (get_all_workers two_workers ''client'') = 2
   \<and> MemCache_get (rules_registry two_workers) (KeyStr ''client_c'') = None
   \<and> start_clients example_env 2 two_workers [rule_c] = (Some TypeError, two_workers)"
proof -
  have pos: "(0::nat) < 2" by simp
  have tw: "two_workers = \<lparr>rules_registry = [(''client_a'', context_u0), (''client_b'', context_u1)],
               workers_registry = [(''client_u0'', context_u0), (''client_u1'', context_u1)],
               rpc_log = [Add ''client'' (Some ''/tmp/axon_client_worker_u0'') [rule_a],
                          Add ''client'' (Some ''/tmp/axon_client_worker_u1'') [rule_b]],
               uuids_drawn = 2\<rparr>"
    by (simp add: two_workers_def two_workers_value)
  have live: "length (get_all_workers two_workers ''client'') = 2"
    by (simp add: tw get_all_workers_def get_all_keys_def)
  have unregistered: "MemCache_get (rules_registry two_workers) (KeyStr ''client_c'') = None"
    by (simp add: tw MemCache_get_def)
  from start_clients_existing_workers_raises [OF pos live, of example_env "[rule_c]"]
    pos live unregistered
  show ?thesis by (intro conjI)
qed

lemma workers_rule_map_head:
  "\<exists>rs' others'. workers_rule_map rid worker_type registry ((k, rs) # others) rules = (k, rs') # others'"
proof (induction rules arbitrary: rs others)
  case Nil
  then show ?case by simp
next
  case (Cons rule rules)
  show ?case
  proof (cases "MemCache_get registry (KeyStr (worker_type @ ''_'' @ rid rule))")
    case None
    with Cons.IH show ?thesis by simp
  next
    case (Some owner)
    obtain rs' others' where "group_append ((k, rs) # others) (ctx_uid owner) rule = (k, rs') # others'"
      by (cases "k = ctx_uid owner") auto
    with Cons.IH [of rs' others'] Some show ?thesis by simp
  qed
qed

lemma delete_rule_from_worker_raises:
  assumes "MemCache_get (rules_registry self) (KeyStr (worker_type @ ''_'' @ rid rule)) = Some owner"
    and "MemCache_get (workers_registry self) (KeyStr (ctx_uid owner)) = None"
  shows "delete_rule_from_worker rid self (rule # rest) worker_type = (Some AttributeError, self)"
proof -
  obtain rs' others' where
    "workers_rule_map rid worker_type (rules_registry self) [(ctx_uid owner, [rule])] rest
       = (ctx_uid owner, rs') # others'"
    using workers_rule_map_head [of rid worker_type "rules_registry self" "ctx_uid owner" "[rule]" "[]" rest]
    by auto
  with assms show ?thesis
    by (simp add: delete_rule_from_worker_def)
qed

text \<open>
  C2. \<open>stop_clients\<close> groups the rules by the uid of their owner and then looks that
  uid up in the workers registry, whose keys are the uid prefixed with the worker type.
  For a rule whose owner is not found under its bare uid, as after \<open>start_clients\<close>,
  reading the address of the missing context raises AttributeError: no delete is sent
  and the entry of the rule stays in the rules registry.
\<close>

theorem stop_clients_owner_lookup_raises:
  assumes "MemCache_get (rules_registry self) (KeyStr (''client_'' @ r_ident rule)) = Some owner"
    and "MemCache_get (workers_registry self) (KeyStr (ctx_uid owner)) = None"
  shows "stop_clients self (rule # rest) = (Some AttributeError, self)"
  unfolding stop_clients_def using assms
  by (intro delete_rule_from_worker_raises) simp_all

theorem stop_clients_owner_lookup_raises_witness:
  "start_clients example_env 2 TrafficController_init [rule_a] = (None, one_worker)
   \<and> MemCache_get (rules_registry one_worker) (KeyStr (''client_'' @ r_ident rule_a)) = Some context_u0
   \<and> MemCache_get (workers_registry one_worker) (KeyStr (ctx_uid context_u0)) = None
   \<and> stop_clients one_worker [rule_a] = (Some AttributeError, one_worker)
   \<and> MemCache_get (rules_registry (snd (stop_clients one_worker [rule_a]))) (KeyStr ''client_a'')
       = Some context_u0"
proof -
  have ow: "one_worker = \<lparr>rules_registry = [(''client_a'', context_u0)],
               workers_registry = [(''client_u0'', context_u0)],
               rpc_log = [Add ''client'' (Some ''/tmp/axon_client_worker_u0'') [rule_a]],
               uuids_drawn = 2\<rparr>"
    by (simp add: one_worker_def one_worker_value)
  have started: "start_clients example_env 2 TrafficController_init [rule_a] = (None, one_worker)"
    by (simp add: ow one_worker_value)
  have owned: "MemCache_get (rules_registry one_worker) (KeyStr (''client_'' @ r_ident rule_a))
                 = Some context_u0"
    by (simp add: ow MemCache_get_def rule_a_def)
  have missing: "MemCache_get (workers_registry one_worker) (KeyStr (ctx_uid context_u0)) = None"
    by (simp add: ow MemCache_get_def context_u0_def)
  note raised = stop_clients_owner_lookup_raises [OF owned missing, of "[]"]
  have kept: "MemCache_get (rules_registry (snd (stop_clients one_worker [rule_a]))) (KeyStr ''client_a'')
       = Some context_u0"
    unfolding raised by (simp add: ow MemCache_get_def)
  from started owned missing raised kept show ?thesis
    by (intro conjI)
qed

end
